theory Spec2Isabelle
  imports Main "HOL-Library.Word"
begin

section \<open>The JavaScript values the converter works on\<close>

subsection \<open>Strings\<close>

text \<open>
  A JavaScript string is a sequence of 16-bit code units. String literals of the source
  (\<^verbatim>\<open>'Error'\<close>, \<^verbatim>\<open>'-'\<close>, \<^verbatim>\<open>'binary'\<close>) are ASCII; \<open>ascii\<close> writes them as code units.
\<close>

type_synonym jsstring = "16 word list"

definition ascii :: "string \<Rightarrow> jsstring" where
  "ascii s = map of_char s"

text \<open>
  What the source takes from the platform and the repository does not contain: the
  Unicode upper-case table for strings with a code unit above U+007F
  (\<^verbatim>\<open>String.prototype.toUpperCase\<close>), and the digits
  \<^verbatim>\<open>Number.prototype.toString(radix)\<close> prints for an integer above \<open>2^53\<close>, which ECMAScript
  leaves to the implementation for a radix other than 10. Both are parameters of the model.
\<close>

record engine =
  unicodeUpperCase :: "jsstring \<Rightarrow> jsstring"
  unsafeToString :: "int \<Rightarrow> nat \<Rightarrow> jsstring"

text \<open>
  \<^verbatim>\<open>String.prototype.trim\<close> removes WhiteSpace and LineTerminator code points from both ends:
  TAB, LF, VT, FF, CR, SP, NBSP, U+1680, U+2000..U+200A, U+2028, U+2029, U+202F, U+205F,
  U+3000 and U+FEFF.
\<close>

definition isWhiteSpace :: "16 word \<Rightarrow> bool" where
  "isWhiteSpace c =
     (c \<in> set [0x09, 0x0A, 0x0B, 0x0C, 0x0D, 0x20, 0xA0, 0x1680, 0x2028, 0x2029,
                0x202F, 0x205F, 0x3000, 0xFEFF]
      \<or> (0x2000 \<le> c \<and> c \<le> 0x200A))"

definition trim :: "jsstring \<Rightarrow> jsstring" where
  "trim s = rev (dropWhile isWhiteSpace (rev (dropWhile isWhiteSpace s)))"

definition isASCII :: "16 word \<Rightarrow> bool" where
  "isASCII c = (c < 0x80)"

definition asciiUpper :: "16 word \<Rightarrow> 16 word" where
  "asciiUpper c = (if 0x61 \<le> c \<and> c \<le> 0x7A then c - 0x20 else c)"

text \<open>
  \<^verbatim>\<open>String.prototype.toUpperCase\<close>: on an ASCII string the letters a..z become A..Z and
  nothing else changes; any other string goes through the engine's Unicode table.
\<close>

definition toUpperCase :: "engine \<Rightarrow> jsstring \<Rightarrow> jsstring" where
  "toUpperCase E s = (if list_all isASCII s then map asciiUpper s else unicodeUpperCase E s)"

subsection \<open>The regular expressions of handleInput\<close>

text \<open>
  \<^verbatim>\<open>/^[01]+$/\<close>, \<^verbatim>\<open>/^[0-7]+$/\<close>, \<^verbatim>\<open>/^[0-9]+$/\<close> and \<^verbatim>\<open>/^[0-9A-F]+$/i\<close>: anchored at both ends,
  one character or more, every character of the class. The \<^verbatim>\<open>i\<close> flag of the last one
  makes a..f match as well.
\<close>

definition inRange :: "16 word \<Rightarrow> 16 word \<Rightarrow> 16 word \<Rightarrow> bool" where
  "inRange lo hi c = (lo \<le> c \<and> c \<le> hi)"

definition testBinary :: "jsstring \<Rightarrow> bool" where
  "testBinary s = (s \<noteq> [] \<and> list_all (inRange 0x30 0x31) s)"

definition testOctal :: "jsstring \<Rightarrow> bool" where
  "testOctal s = (s \<noteq> [] \<and> list_all (inRange 0x30 0x37) s)"

definition testDecimal :: "jsstring \<Rightarrow> bool" where
  "testDecimal s = (s \<noteq> [] \<and> list_all (inRange 0x30 0x39) s)"

definition testHexadecimal :: "jsstring \<Rightarrow> bool" where
  "testHexadecimal s =
     (s \<noteq> [] \<and> list_all (\<lambda>c. inRange 0x30 0x39 c \<or> inRange 0x41 0x46 c \<or> inRange 0x61 0x66 c) s)"

subsection \<open>Numbers\<close>

text \<open>
  A JavaScript number is an IEEE 754 double. handleInput only ever holds the result of
  \<^verbatim>\<open>parseInt\<close>: NaN, an infinity, or a double whose value is an integer (\<open>-0\<close> and \<open>0\<close>
  print alike and compare alike with 0, so both are \<open>Finite 0\<close>).
\<close>

datatype number = NaN | Finite int | PosInfinity | NegInfinity

text \<open>The number of binary digits of a natural number (none for 0).\<close>

function bitLength :: "nat \<Rightarrow> nat" where
  "bitLength n = (if n = 0 then 0 else Suc (bitLength (n div 2)))"
  by pat_completeness auto
termination
  by (relation "measure (\<lambda>n. n)") auto

declare bitLength.simps [simp del]

text \<open>
  Rounding a natural number to the nearest double, ties to even: below \<open>2^53\<close> every
  integer is a double; from there on the 53 leading bits \<open>q\<close> are kept and the \<open>e\<close> bits
  dropped, \<open>r\<close>, decide the rounding. \<open>None\<close> is the overflow to infinity, which starts at
  \<open>2^1024 - 2^970\<close>.
\<close>

definition roundToDouble :: "nat \<Rightarrow> nat option" where
  "roundToDouble n =
     (if n < 2 ^ 53 then Some n
      else
        (let e = bitLength n - 53;
             q = n div 2 ^ e;
             r = n mod 2 ^ e;
             q' = (if 2 ^ e < 2 * r \<or> (2 * r = 2 ^ e \<and> odd q) then q + 1 else q)
         in if 2 ^ 1024 \<le> q' * 2 ^ e then None else Some (q' * 2 ^ e)))"

definition toNumber :: "bool \<Rightarrow> nat \<Rightarrow> number" where
  "toNumber negative n =
     (case roundToDouble n of
        None \<Rightarrow> (if negative then NegInfinity else PosInfinity)
      | Some m \<Rightarrow> Finite (if negative then - int m else int m))"

text \<open>The value of a digit for \<^verbatim>\<open>parseInt\<close>: 0..9, and A..Z or a..z for 10..35.\<close>

definition digitValue :: "16 word \<Rightarrow> nat option" where
  "digitValue c =
     (if inRange 0x30 0x39 c then Some (unat c - 48)
      else if inRange 0x41 0x5A c then Some (unat c - 55)
      else if inRange 0x61 0x7A c then Some (unat c - 87)
      else None)"

definition isRadixDigit :: "nat \<Rightarrow> 16 word \<Rightarrow> bool" where
  "isRadixDigit R c = (case digitValue c of None \<Rightarrow> False | Some d \<Rightarrow> d < R)"

definition mathInt :: "nat \<Rightarrow> jsstring \<Rightarrow> nat" where
  "mathInt R Z = foldl (\<lambda>acc c. case digitValue c of None \<Rightarrow> acc | Some d \<Rightarrow> acc * R + d) 0 Z"

text \<open>
  \<^verbatim>\<open>parseInt(string, radix)\<close> as ECMAScript defines it: leading white space is skipped, a
  sign is read, for radix 16 (or 0) a \<^verbatim>\<open>0x\<close> prefix is dropped, the longest prefix of
  digits of the radix is the numeral, and no digit at all gives NaN. (For radix 10 an
  engine may zero the digits after the 20th; the model reads them all.)
\<close>

definition parseInt :: "jsstring \<Rightarrow> nat \<Rightarrow> number" where
  "parseInt string radix =
     (let S0 = dropWhile isWhiteSpace string;
          negative = (S0 \<noteq> [] \<and> hd S0 = 0x2D);
          S1 = (if S0 \<noteq> [] \<and> (hd S0 = 0x2B \<or> hd S0 = 0x2D) then tl S0 else S0)
      in if radix \<noteq> 0 \<and> (radix < 2 \<or> 36 < radix) then NaN
         else
           (let R0 = (if radix = 0 then 10 else radix);
                hasPrefix = ((radix = 0 \<or> radix = 16)
                             \<and> (take 2 S1 = ascii ''0x'' \<or> take 2 S1 = ascii ''0X''));
                S = (if hasPrefix then drop 2 S1 else S1);
                R = (if hasPrefix then 16 else R0);
                Z = takeWhile (isRadixDigit R) S
            in if Z = [] then NaN else toNumber negative (mathInt R Z)))"

definition isNaN :: "number \<Rightarrow> bool" where
  "isNaN x = (x = NaN)"

definition lessThanZero :: "number \<Rightarrow> bool" where
  "lessThanZero x = (case x of Finite i \<Rightarrow> i < 0 | NegInfinity \<Rightarrow> True | _ \<Rightarrow> False)"

text \<open>The digit characters of \<^verbatim>\<open>Number.prototype.toString\<close>: 0..9 and a..z.\<close>

definition digitChar :: "nat \<Rightarrow> 16 word" where
  "digitChar d = (if d < 10 then of_nat (48 + d) else of_nat (87 + d))"

function toDigits :: "nat \<Rightarrow> nat \<Rightarrow> jsstring" where
  "toDigits R n =
     (if R < 2 \<or> n < R then [digitChar n]
      else toDigits R (n div R) @ [digitChar (n mod R)])"
  by pat_completeness auto
termination
  by (relation "measure (\<lambda>(R, n). n)") auto

declare toDigits.simps [simp del]

text \<open>
  \<^verbatim>\<open>x.toString(radix)\<close> for the radixes 2, 8, 10 and 16 the source passes. An integer of
  magnitude up to \<open>2^53\<close> is printed digit by digit (the integers up to there are
  consecutive doubles, so the shortest numeral that reads back as the number is the exact
  one). Above, the engine decides: it may print zeros for digits the double does not
  hold, and radix 10 turns to exponent notation from \<open>10^21\<close>.
\<close>

definition numberToString :: "engine \<Rightarrow> number \<Rightarrow> nat \<Rightarrow> jsstring" where
  "numberToString E x radix =
     (case x of
        NaN \<Rightarrow> ascii ''NaN''
      | PosInfinity \<Rightarrow> ascii ''Infinity''
      | NegInfinity \<Rightarrow> ascii ''-Infinity''
      | Finite i \<Rightarrow>
          (if \<bar>i\<bar> \<le> 2 ^ 53
           then (if i < 0 then 0x2D # toDigits radix (nat (- i)) else toDigits radix (nat i))
           else unsafeToString E i radix))"

section \<open>NumberSystemConverter (js/converter.js)\<close>

text \<open>
  The part of the page the class reads and writes: the four input fields (their value and
  whether they carry the CSS class \<^verbatim>\<open>error\<close>), the four result fields (their
  \<^verbatim>\<open>textContent\<close> and the same class) and the copy buffer \<^verbatim>\<open>currentValues\<close>, which is
  \<^verbatim>\<open>null\<close> or the object built by updateResults.
\<close>

record inputField =
  fieldValue :: jsstring
  fieldError :: bool

record element =
  textContent :: jsstring
  errorClass :: bool

record conversions =
  binary :: jsstring
  octal :: jsstring
  decimal :: jsstring
  hexadecimal :: jsstring

record converter =
  binaryInput :: inputField
  octalInput :: inputField
  decimalInput :: inputField
  hexadecimalInput :: inputField
  binaryResult :: element
  octalResult :: element
  decimalResult :: element
  hexadecimalResult :: element
  currentValues :: "conversions option"

datatype error = Error string | ReferenceError string | TypeError string

text \<open>
  updateResults (lines 163-179): the four strings come from the one number; each result
  field takes its string and loses the class \<^verbatim>\<open>error\<close>; the object is kept for copying.
  The parameter sourceType is not used by the body.
\<close>

definition updateResults :: "engine \<Rightarrow> converter \<Rightarrow> number \<Rightarrow> string \<Rightarrow> converter" where
  "updateResults E this decimalValue sourceType =
     (let conv = \<lparr> binary = numberToString E decimalValue 2,
                    octal = numberToString E decimalValue 8,
                    decimal = numberToString E decimalValue 10,
                    hexadecimal = toUpperCase E (numberToString E decimalValue 16) \<rparr>
      in this \<lparr> binaryResult := \<lparr> textContent = binary conv, errorClass = False \<rparr>,
                octalResult := \<lparr> textContent = octal conv, errorClass = False \<rparr>,
                decimalResult := \<lparr> textContent = decimal conv, errorClass = False \<rparr>,
                hexadecimalResult := \<lparr> textContent = hexadecimal conv, errorClass = False \<rparr>,
                currentValues := Some conv \<rparr>)"

text \<open>showConversionError (lines 184-190).\<close>

definition showConversionError :: "converter \<Rightarrow> converter" where
  "showConversionError this =
     this \<lparr> binaryResult := \<lparr> textContent = ascii ''Error'', errorClass = True \<rparr>,
            octalResult := \<lparr> textContent = ascii ''Error'', errorClass = True \<rparr>,
            decimalResult := \<lparr> textContent = ascii ''Error'', errorClass = True \<rparr>,
            hexadecimalResult := \<lparr> textContent = ascii ''Error'', errorClass = True \<rparr>,
            currentValues := None \<rparr>"

text \<open>clearResults (lines 206-212).\<close>

definition clearResults :: "converter \<Rightarrow> converter" where
  "clearResults this =
     this \<lparr> binaryResult := \<lparr> textContent = ascii ''-'', errorClass = False \<rparr>,
            octalResult := \<lparr> textContent = ascii ''-'', errorClass = False \<rparr>,
            decimalResult := \<lparr> textContent = ascii ''-'', errorClass = False \<rparr>,
            hexadecimalResult := \<lparr> textContent = ascii ''-'', errorClass = False \<rparr>,
            currentValues := None \<rparr>"

text \<open>clearAll (lines 195-201).\<close>

definition clearAll :: "converter \<Rightarrow> converter" where
  "clearAll this =
     clearResults
       (this \<lparr> binaryInput := \<lparr> fieldValue = [], fieldError = False \<rparr>,
               octalInput := \<lparr> fieldValue = [], fieldError = False \<rparr>,
               decimalInput := \<lparr> fieldValue = [], fieldError = False \<rparr>,
               hexadecimalInput := \<lparr> fieldValue = [], fieldError = False \<rparr> \<rparr>)"

text \<open>
  The switch of handleInput (lines 119-142): the regular expression of the source type is
  tested first, and \<^verbatim>\<open>throw\<close> leaves the block with the error.
\<close>

definition switchSourceType :: "string \<Rightarrow> jsstring \<Rightarrow> error + number" where
  "switchSourceType sourceType v =
     (if sourceType = ''binary'' then
        (if \<not> testBinary v then Inl (Error ''Invalid binary number'') else Inr (parseInt v 2))
      else if sourceType = ''octal'' then
        (if \<not> testOctal v then Inl (Error ''Invalid octal number'') else Inr (parseInt v 8))
      else if sourceType = ''decimal'' then
        (if \<not> testDecimal v then Inl (Error ''Invalid decimal number'') else Inr (parseInt v 10))
      else if sourceType = ''hexadecimal'' then
        (if \<not> testHexadecimal v then Inl (Error ''Invalid hexadecimal number'')
         else Inr (parseInt v 16))
      else Inl (Error ''Unknown number system''))"

text \<open>
  handleInput (lines 105-156). The value is trimmed and upper-cased; the empty string
  clears the results and returns; otherwise the \<^verbatim>\<open>try\<close> block runs the switch, the check
  of the number and updateResults, and \<^verbatim>\<open>catch\<close> answers any error thrown with
  showConversionError (the message goes to the console, which the model leaves out).
\<close>

definition handleInput :: "engine \<Rightarrow> converter \<Rightarrow> string \<Rightarrow> jsstring \<Rightarrow> converter" where
  "handleInput E this sourceType input =
     (let v = toUpperCase E (trim input) in
      if v = [] then clearResults this
      else
        (case
           (case switchSourceType sourceType v of
              Inl e \<Rightarrow> Inl e
            | Inr decimalValue \<Rightarrow>
                (if isNaN decimalValue \<or> lessThanZero decimalValue
                 then Inl (Error ''Invalid number'')
                 else Inr (updateResults E this decimalValue sourceType)))
         of
           Inl e \<Rightarrow> showConversionError this
         | Inr this' \<Rightarrow> this'))"

text \<open>
  copyResults (lines 217-238). With no copy buffer the message is shown and nothing is
  written. Otherwise the four lines are joined and handed to the clipboard, whose success
  is the parameter. The \<^verbatim>\<open>catch\<close> block names \<^verbatim>\<open>resultText\<close>, a \<^verbatim>\<open>const\<close> of the
  \<^verbatim>\<open>try\<close> block that is not in scope there, so a failed write ends in a ReferenceError.
\<close>

datatype copyOutcome =
    Shown string
  | Copied jsstring string
  | Thrown error

definition joinLines :: "jsstring list \<Rightarrow> jsstring" where
  "joinLines ls = (case ls of [] \<Rightarrow> [] | l # rest \<Rightarrow> l @ concat (map (\<lambda>x. 0x0A # x) rest))"

definition copyResults :: "bool \<Rightarrow> converter \<Rightarrow> copyOutcome" where
  "copyResults clipboardWrites this =
     (case currentValues this of
        None \<Rightarrow> Shown ''No results to copy''
      | Some cv \<Rightarrow>
          (let resultText = joinLines [ascii ''Binary: '' @ binary cv,
                                       ascii ''Octal: '' @ octal cv,
                                       ascii ''Decimal: '' @ decimal cv,
                                       ascii ''Hexadecimal: '' @ hexadecimal cv]
           in if clipboardWrites then Copied resultText ''Results copied to clipboard!''
              else Thrown (ReferenceError ''resultText is not defined'')))"

text \<open>The constructor (lines 7-11) ends with clearAll on whatever the page holds.\<close>

definition newConverter :: "converter \<Rightarrow> converter" where
  "newConverter page = clearAll page"

text \<open>
  getMaxSafeInteger and isWithinSafeRange (lines 312-323). No method of the class calls
  them: handleInput hands every number parseInt returns to updateResults.
\<close>

definition getMaxSafeInteger :: int where
  "getMaxSafeInteger = 9007199254740991"

definition isWithinSafeRange :: "number \<Rightarrow> bool" where
  "isWithinSafeRange x =
     (case x of Finite i \<Rightarrow> i \<le> getMaxSafeInteger | NegInfinity \<Rightarrow> True | _ \<Rightarrow> False)"

text \<open>
  The events that reach the converter once it is built: an input (or paste) event of one
  of the fields, which calls handleInput with the field's type and value, and the clear
  button or the clear shortcuts, which call clearAll (bindEvents, lines 52-71).
\<close>

datatype event = InputEvent string jsstring | ClearClick

definition dispatch :: "engine \<Rightarrow> converter \<Rightarrow> event \<Rightarrow> converter" where
  "dispatch E this ev =
     (case ev of InputEvent sourceType input \<Rightarrow> handleInput E this sourceType input
               | ClearClick \<Rightarrow> clearAll this)"

definition run :: "engine \<Rightarrow> converter \<Rightarrow> event list \<Rightarrow> converter" where
  "run E page evs = foldl (dispatch E) (newConverter page) evs"

subsection \<open>What the specification says of a conversion\<close>

text \<open>
  The radix of a source type, the test handleInput applies to it and the alphabet that
  test admits (for hexadecimal both cases of a letter); the integer rendered
  in the four radixes, hexadecimal in upper case; and the normal form of a numeral the
  round-trip law compares with: upper case, leading zeros dropped (one digit is kept).
\<close>

definition radixOf :: "string \<Rightarrow> nat" where
  "radixOf sourceType =
     (if sourceType = ''binary'' then 2 else if sourceType = ''octal'' then 8
      else if sourceType = ''decimal'' then 10 else 16)"

definition sourceTypes :: "string list" where
  "sourceTypes = [''binary'', ''octal'', ''decimal'', ''hexadecimal'']"

definition legalInput :: "string \<Rightarrow> jsstring \<Rightarrow> bool" where
  "legalInput sourceType v =
     (if sourceType = ''binary'' then testBinary v
      else if sourceType = ''octal'' then testOctal v
      else if sourceType = ''decimal'' then testDecimal v
      else if sourceType = ''hexadecimal'' then testHexadecimal v
      else False)"

definition inAlphabet :: "string \<Rightarrow> 16 word \<Rightarrow> bool" where
  "inAlphabet sourceType c =
     (if sourceType = ''binary'' then inRange 0x30 0x31 c
      else if sourceType = ''octal'' then inRange 0x30 0x37 c
      else if sourceType = ''decimal'' then inRange 0x30 0x39 c
      else if sourceType = ''hexadecimal''
        then inRange 0x30 0x39 c \<or> inRange 0x41 0x46 c \<or> inRange 0x61 0x66 c
      else False)"

definition renderAll :: "nat \<Rightarrow> conversions" where
  "renderAll n = \<lparr> binary = toDigits 2 n, octal = toDigits 8 n, decimal = toDigits 10 n,
                   hexadecimal = map asciiUpper (toDigits 16 n) \<rparr>"

definition stripLeadingZeros :: "jsstring \<Rightarrow> jsstring" where
  "stripLeadingZeros s = (case dropWhile (\<lambda>c. c = 0x30) s of [] \<Rightarrow> [0x30] | t \<Rightarrow> t)"

definition resultOf :: "string \<Rightarrow> converter \<Rightarrow> element" where
  "resultOf sourceType this =
     (if sourceType = ''binary'' then binaryResult this
      else if sourceType = ''octal'' then octalResult this
      else if sourceType = ''decimal'' then decimalResult this
      else hexadecimalResult this)"

text \<open>The three states of the result fields: a conversion, the placeholder, the error marker.\<close>

definition showsConversion :: "conversions \<Rightarrow> converter \<Rightarrow> bool" where
  "showsConversion conv this =
     (binaryResult this = \<lparr> textContent = binary conv, errorClass = False \<rparr>
      \<and> octalResult this = \<lparr> textContent = octal conv, errorClass = False \<rparr>
      \<and> decimalResult this = \<lparr> textContent = decimal conv, errorClass = False \<rparr>
      \<and> hexadecimalResult this = \<lparr> textContent = hexadecimal conv, errorClass = False \<rparr>)"

definition showsPlaceholder :: "converter \<Rightarrow> bool" where
  "showsPlaceholder this =
     (binaryResult this = \<lparr> textContent = ascii ''-'', errorClass = False \<rparr>
      \<and> octalResult this = \<lparr> textContent = ascii ''-'', errorClass = False \<rparr>
      \<and> decimalResult this = \<lparr> textContent = ascii ''-'', errorClass = False \<rparr>
      \<and> hexadecimalResult this = \<lparr> textContent = ascii ''-'', errorClass = False \<rparr>)"

definition showsError :: "converter \<Rightarrow> bool" where
  "showsError this =
     (binaryResult this = \<lparr> textContent = ascii ''Error'', errorClass = True \<rparr>
      \<and> octalResult this = \<lparr> textContent = ascii ''Error'', errorClass = True \<rparr>
      \<and> decimalResult this = \<lparr> textContent = ascii ''Error'', errorClass = True \<rparr>
      \<and> hexadecimalResult this = \<lparr> textContent = ascii ''Error'', errorClass = True \<rparr>)"

definition inSync :: "converter \<Rightarrow> bool" where
  "inSync this =
     (case currentValues this of
        None \<Rightarrow> showsPlaceholder this \<or> showsError this
      | Some conv \<Rightarrow> showsConversion conv this)"

subsection \<open>A page and an engine to run the converter on\<close>

text \<open>
  The page as it loads, with every field empty, and an engine that prints every integer
  digit by digit and has no Unicode table. The closed statements below run on them; their
  inputs are ASCII and none prints an integer above \<open>2^53\<close>, so they hold on every engine.
\<close>

definition emptyPage :: converter where
  "emptyPage =
     \<lparr> binaryInput = \<lparr> fieldValue = [], fieldError = False \<rparr>,
       octalInput = \<lparr> fieldValue = [], fieldError = False \<rparr>,
       decimalInput = \<lparr> fieldValue = [], fieldError = False \<rparr>,
       hexadecimalInput = \<lparr> fieldValue = [], fieldError = False \<rparr>,
       binaryResult = \<lparr> textContent = [], errorClass = False \<rparr>,
       octalResult = \<lparr> textContent = [], errorClass = False \<rparr>,
       decimalResult = \<lparr> textContent = [], errorClass = False \<rparr>,
       hexadecimalResult = \<lparr> textContent = [], errorClass = False \<rparr>,
       currentValues = None \<rparr>"

definition exactEngine :: engine where
  "exactEngine =
     \<lparr> unicodeUpperCase = (\<lambda>s. s),
       unsafeToString = (\<lambda>i radix. if i < 0 then 0x2D # toDigits radix (nat (- i))
                                     else toDigits radix (nat i)) \<rparr>"

section \<open>The service worker (sw.js)\<close>

definition CACHE_NAME :: string where
  "CACHE_NAME = ''number-converter-v1.0.0''"

definition STATIC_CACHE_NAME :: string where
  "STATIC_CACHE_NAME = CACHE_NAME @ ''-static''"

definition DYNAMIC_CACHE_NAME :: string where
  "DYNAMIC_CACHE_NAME = CACHE_NAME @ ''-dynamic''"

definition STATIC_FILES :: "string list" where
  "STATIC_FILES = [''/'', ''/index.html'', ''/styles/main.css'', ''/js/converter.js'',
                   ''/js/app.js'', ''/manifest.json'', ''/icons/icon-192x192.png'',
                   ''/icons/icon-512x512.png'']"

definition MAX_DYNAMIC_CACHE_SIZE :: nat where
  "MAX_DYNAMIC_CACHE_SIZE = 50"

subsection \<open>Requests, responses and the Cache API\<close>

record request =
  requestMethod :: string
  url :: string
  destination :: string

record response =
  status :: nat
  responseType :: string
  body :: string
  headers :: "(string \<times> string) list"

text \<open>
  A cache holds its entries in insertion order, keyed by the request's URL; the cache
  storage holds the named caches in the order they were created. A promise is modelled by
  how it settles.
\<close>

type_synonym cache = "(string \<times> response) list"
type_synonym cacheStorage = "(string \<times> cache) list"

datatype 'a promise = Fulfilled 'a | Rejected error

text \<open>\<^verbatim>\<open>caches.keys()\<close>, \<^verbatim>\<open>caches.open(name)\<close> (which creates a missing cache) and \<^verbatim>\<open>caches.delete(name)\<close>.\<close>

definition cacheStorageKeys :: "cacheStorage \<Rightarrow> string list" where
  "cacheStorageKeys st = map fst st"

definition cacheStorageOpen :: "cacheStorage \<Rightarrow> string \<Rightarrow> cacheStorage" where
  "cacheStorageOpen st name = (if name \<in> set (map fst st) then st else st @ [(name, [])])"

definition cacheStorageDelete :: "cacheStorage \<Rightarrow> string \<Rightarrow> cacheStorage" where
  "cacheStorageDelete st name = filter (\<lambda>entry. fst entry \<noteq> name) st"

text \<open>\<^verbatim>\<open>caches.match(request)\<close>: the first entry for the URL, the caches taken in order.\<close>

definition cacheStorageMatch :: "cacheStorage \<Rightarrow> string \<Rightarrow> response option" where
  "cacheStorageMatch st u = map_of (concat (map snd st)) u"

text \<open>
  The entries of a named cache, \<^verbatim>\<open>cache.keys()\<close>, and \<^verbatim>\<open>cache.put(request, response)\<close>,
  which replaces an entry of the same URL and appends the new one.
\<close>

definition cacheOf :: "cacheStorage \<Rightarrow> string \<Rightarrow> cache" where
  "cacheOf st name = (case map_of st name of None \<Rightarrow> [] | Some c \<Rightarrow> c)"

definition cacheKeys :: "cacheStorage \<Rightarrow> string \<Rightarrow> string list" where
  "cacheKeys st name = map fst (cacheOf st name)"

definition cachePut :: "cacheStorage \<Rightarrow> string \<Rightarrow> string \<Rightarrow> response \<Rightarrow> cacheStorage" where
  "cachePut st name u r =
     map (\<lambda>entry. if fst entry = name
                   then (fst entry, filter (\<lambda>e. fst e \<noteq> u) (snd entry) @ [(u, r)])
                   else entry) st"

text \<open>
  The world around the worker: its origin (\<^verbatim>\<open>self.location.origin\<close>) and what
  \<^verbatim>\<open>fetch\<close> of a URL gives, \<open>None\<close> when the fetch fails. A path of the source
  (\<^verbatim>\<open>'/index.html'\<close>) names the URL under the origin.
\<close>

record environment =
  origin :: string
  network :: "string \<Rightarrow> response option"

definition resolveURL :: "environment \<Rightarrow> string \<Rightarrow> string" where
  "resolveURL env path = origin env @ path"

text \<open>
  \<^verbatim>\<open>cache.addAll(urls)\<close> fetches every URL and rejects with a TypeError if one fetch
  fails or answers with a status outside 200..299 (or with 206); only when all have
  succeeded are the responses put into the cache.
\<close>

definition fetchedOk :: "environment \<Rightarrow> string \<Rightarrow> bool" where
  "fetchedOk env u =
     (case network env u of
        None \<Rightarrow> False
      | Some r \<Rightarrow> 200 \<le> status r \<and> status r \<le> 299 \<and> status r \<noteq> 206)"

definition cacheAddAll :: "environment \<Rightarrow> cacheStorage \<Rightarrow> string \<Rightarrow> string list \<Rightarrow> cacheStorage promise" where
  "cacheAddAll env st name urls =
     (if list_all (fetchedOk env) urls
      then Fulfilled
             (foldl (\<lambda>s u. case network env u of None \<Rightarrow> s | Some r \<Rightarrow> cachePut s name u r)
                st urls)
      else Rejected (TypeError ''Failed to fetch''))"

subsection \<open>The worker and its event listeners\<close>

text \<open>
  The worker's state is the cache storage of its origin and what it has done so far, in
  order: the caches it deleted, \<^verbatim>\<open>skipWaiting\<close>, \<^verbatim>\<open>clients.claim\<close>, and the errors it
  wrote to the console.
\<close>

datatype effect =
    CacheDeleted string
  | SkipWaiting
  | ClientsClaim
  | ConsoleError string error

record worker =
  caches :: cacheStorage
  effects :: "effect list"

text \<open>
  The install listener (lines 28-44). The promise handed to \<^verbatim>\<open>event.waitUntil\<close> is the
  chain \<^verbatim>\<open>open, addAll, skipWaiting\<close> closed by a \<^verbatim>\<open>catch\<close> that writes the error to the
  console and returns nothing: whatever addAll does, the chain is fulfilled.
\<close>

definition install :: "environment \<Rightarrow> worker \<Rightarrow> worker \<times> unit promise" where
  "install env w =
     (let st = cacheStorageOpen (caches w) STATIC_CACHE_NAME in
      case cacheAddAll env st STATIC_CACHE_NAME (map (resolveURL env) STATIC_FILES) of
        Fulfilled st' \<Rightarrow>
          (w \<lparr> caches := st', effects := effects w @ [SkipWaiting] \<rparr>, Fulfilled ())
      | Rejected e \<Rightarrow>
          (w \<lparr> caches := st,
               effects := effects w
                 @ [ConsoleError ''Error during service worker installation:'' e] \<rparr>,
           Fulfilled ()))"

text \<open>
  What the browser makes of the promise of an install event: a rejected promise fails the
  installation and the worker becomes redundant; otherwise the worker is installed.
\<close>

datatype workerState = Installed | Redundant

definition installPhase :: "unit promise \<Rightarrow> workerState" where
  "installPhase p = (case p of Fulfilled x \<Rightarrow> Installed | Rejected e \<Rightarrow> Redundant)"

text \<open>
  The activate listener (lines 49-71): every cache whose name is neither of the two
  current names is deleted, and when all deletions are done the clients are claimed.
\<close>

definition activate :: "worker \<Rightarrow> worker \<times> unit promise" where
  "activate w =
     (let cacheNames = cacheStorageKeys (caches w);
          old = filter (\<lambda>cacheName. cacheName \<noteq> STATIC_CACHE_NAME
                                     \<and> cacheName \<noteq> DYNAMIC_CACHE_NAME) cacheNames
      in (w \<lparr> caches := foldl cacheStorageDelete (caches w) old,
               effects := effects w @ map CacheDeleted old @ [ClientsClaim] \<rparr>,
          Fulfilled ()))"

text \<open>
  limitCacheSize (lines 220-234). The name \<^verbatim>\<open>cache\<close> is the parameter of the first
  callback (line 222) only. The second callback (line 225) is another function; neither
  it, nor limitCacheSize, nor the script, nor the worker's global scope declares
  \<^verbatim>\<open>cache\<close>. So when there are more keys than maxSize, evaluating \<^verbatim>\<open>cache.delete\<close>
  throws a ReferenceError before anything is deleted, the recursive call is never made,
  and the \<^verbatim>\<open>catch\<close> of line 231 writes the error to the console.
\<close>

definition limitCacheSize :: "worker \<Rightarrow> string \<Rightarrow> nat \<Rightarrow> worker" where
  "limitCacheSize w cacheName maxSize =
     (let st = cacheStorageOpen (caches w) cacheName;
          keys = cacheKeys st cacheName
      in if maxSize < length keys
         then w \<lparr> caches := st,
                  effects := effects w
                    @ [ConsoleError ''Error limiting cache size:''
                         (ReferenceError ''cache is not defined'')] \<rparr>
         else w \<lparr> caches := st \<rparr>)"

text \<open>
  The fetch listener (lines 76-135). A request that is not GET or not of the worker's
  origin is left alone. Otherwise the answer is the cached response if there is one; else
  the network's, which is also put into the dynamic cache when it is a 200 of type
  \<^verbatim>\<open>basic\<close>, followed by limitCacheSize; and when the fetch fails, the cached
  \<^verbatim>\<open>/index.html\<close> for a document and a 408 response for anything else.
  \<^verbatim>\<open>caches.match\<close> resolves with \<^verbatim>\<open>undefined\<close> when nothing matches: that is \<open>None\<close>, and
  \<^verbatim>\<open>respondWith\<close> then fails the request with a network error. The source starts
  \<^verbatim>\<open>cache.put\<close> and calls limitCacheSize without waiting for it; here the put is done
  first, the order in which limitCacheSize sees the most keys.
\<close>

datatype fetchOutcome = NotIntercepted | RespondWith "response option"

definition offlineResponse :: response where
  "offlineResponse =
     \<lparr> status = 408, responseType = ''default'',
       body = ''Offline - This resource is not available'',
       headers = [(''Content-Type'', ''text/plain'')] \<rparr>"

definition handleFetch :: "environment \<Rightarrow> worker \<Rightarrow> request \<Rightarrow> worker \<times> fetchOutcome" where
  "handleFetch env w req =
     (if requestMethod req \<noteq> ''GET'' then (w, NotIntercepted)
      else if take (length (origin env)) (url req) \<noteq> origin env then (w, NotIntercepted)
      else
        (case cacheStorageMatch (caches w) (url req) of
           Some cachedResponse \<Rightarrow> (w, RespondWith (Some cachedResponse))
         | None \<Rightarrow>
             (case network env (url req) of
                Some networkResponse \<Rightarrow>
                  (if status networkResponse \<noteq> 200 \<or> responseType networkResponse \<noteq> ''basic''
                   then (w, RespondWith (Some networkResponse))
                   else
                     (let st = cacheStorageOpen (caches w) DYNAMIC_CACHE_NAME;
                          st' = cachePut st DYNAMIC_CACHE_NAME (url req) networkResponse;
                          w' = limitCacheSize (w \<lparr> caches := st' \<rparr>) DYNAMIC_CACHE_NAME
                                 MAX_DYNAMIC_CACHE_SIZE
                      in (w', RespondWith (Some networkResponse))))
              | None \<Rightarrow>
                  (if destination req = ''document''
                   then (w, RespondWith
                              (cacheStorageMatch (caches w) (resolveURL env ''/index.html'')))
                   else (w, RespondWith (Some offlineResponse))))))"

text \<open>The worker handling a sequence of fetch events, one after the other.\<close>

definition handleFetches :: "environment \<Rightarrow> worker \<Rightarrow> request list \<Rightarrow> worker" where
  "handleFetches env w reqs = foldl (\<lambda>w req. fst (handleFetch env w req)) w reqs"

subsection \<open>A worker and the networks it is run on\<close>

definition freshWorker :: worker where
  "freshWorker = \<lparr> caches = [], effects = [] \<rparr>"

definition okResponse :: "string \<Rightarrow> response" where
  "okResponse u = \<lparr> status = 200, responseType = ''basic'', body = u, headers = [] \<rparr>"

definition online :: environment where
  "online = \<lparr> origin = ''https://converter.example'', network = (\<lambda>u. Some (okResponse u)) \<rparr>"

definition offline :: environment where
  "offline = \<lparr> origin = ''https://converter.example'', network = (\<lambda>u. None) \<rparr>"

text \<open>A server that has every file but the larger icon, for which it answers 404.\<close>

definition iconMissing :: environment where
  "iconMissing =
     \<lparr> origin = ''https://converter.example'',
       network = (\<lambda>u. if u = ''https://converter.example/icons/icon-512x512.png''
                       then Some \<lparr> status = 404, responseType = ''basic'', body = [], headers = [] \<rparr>
                       else Some (okResponse u)) \<rparr>"

definition getRequest :: "string \<Rightarrow> string \<Rightarrow> request" where
  "getRequest u dest = \<lparr> requestMethod = ''GET'', url = u, destination = dest \<rparr>"

text \<open>\<open>n\<close> requests for \<open>n\<close> different scripts of the origin.\<close>

definition scriptRequests :: "nat \<Rightarrow> request list" where
  "scriptRequests n =
     map (\<lambda>i. getRequest (resolveURL online (''/lib/'' @ replicate i (CHR ''x'') @ ''.js''))
                 ''script'') [0..<n]"

section \<open>Digits, numerals and the platform functions\<close>

subsection \<open>Characters\<close>

lemma digitValue_cases:
  assumes "digitValue c = Some d"
  shows "(48 \<le> unat c \<and> unat c \<le> 57 \<and> unat c = d + 48)
       \<or> (65 \<le> unat c \<and> unat c \<le> 90 \<and> unat c = d + 55)
       \<or> (97 \<le> unat c \<and> unat c \<le> 122 \<and> unat c = d + 87)"
  using assms by (auto simp: digitValue_def inRange_def word_le_nat_alt split: if_splits)

lemma asciiUpper_unat:
  "unat (asciiUpper c) = (if 97 \<le> unat c \<and> unat c \<le> 122 then unat c - 32 else unat c)"
  by (auto simp: asciiUpper_def word_le_nat_alt unat_sub)

lemma unat_digitChar: "d < 36 \<Longrightarrow> unat (digitChar d) = (if d < 10 then 48 + d else 87 + d)"
  by (auto simp: digitChar_def unat_word_ariths unat_of_nat)

lemma upper_digitChar:
  assumes "digitValue c = Some d"
  shows "asciiUpper (digitChar d) = asciiUpper c"
proof -
  have d36: "d < 36" using digitValue_cases[OF assms] by arith
  have "unat (asciiUpper (digitChar d)) = unat (asciiUpper c)"
    using digitValue_cases[OF assms] unfolding asciiUpper_unat unat_digitChar[OF d36]
    by (elim disjE conjE) simp_all
  then show ?thesis by (simp add: word_unat_eq_iff)
qed

lemma digit_zero_iff:
  assumes "digitValue c = Some d"
  shows "(asciiUpper c = 0x30) = (d = 0)"
proof -
  have "(unat (asciiUpper c) = 48) = (d = 0)"
    using digitValue_cases[OF assms] unfolding asciiUpper_unat
    by (elim disjE conjE) simp_all
  then show ?thesis by (simp add: word_unat_eq_iff)
qed

subsection \<open>A numeral and its value\<close>

lemma mathInt_snoc:
  "mathInt R (u @ [c]) = (case digitValue c of None \<Rightarrow> mathInt R u | Some d \<Rightarrow> mathInt R u * R + d)"
  unfolding mathInt_def by (simp split: option.splits)

lemma toDigits_small: "d < R \<Longrightarrow> toDigits R d = [digitChar d]"
  by (subst toDigits.simps) simp

lemma toDigits_step:
  assumes "2 \<le> R" "d < R"
  shows "toDigits R (m * R + d) = (if m = 0 then [digitChar d] else toDigits R m @ [digitChar d])"
proof (cases "m = 0")
  case True
  then show ?thesis using assms by (simp add: toDigits_small)
next
  case False
  then have "\<not> (m * R + d < R)" using assms
    by (metis add_lessD1 mult_eq_if not_add_less1)
  moreover have "(m * R + d) div R = m" "(m * R + d) mod R = d" using assms by auto
  ultimately show ?thesis using assms False
    by (subst toDigits.simps) simp
qed

lemma mathInt_zero_iff:
  assumes "0 < R" "list_all (isRadixDigit R) u"
  shows "(mathInt R u = 0) = (dropWhile (\<lambda>c. c = 0x30) (map asciiUpper u) = [])"
  using assms(2)
proof (induction u rule: rev_induct)
  case Nil
  then show ?case by (simp add: mathInt_def)
next
  case (snoc c u)
  then obtain d where d: "digitValue c = Some d" "d < R"
    by (auto simp: isRadixDigit_def split: option.splits)
  have ih: "(mathInt R u = 0) = (dropWhile (\<lambda>c. c = 0x30) (map asciiUpper u) = [])"
    using snoc by simp
  have z: "(asciiUpper c = 0x30) = (d = 0)" by (rule digit_zero_iff[OF d(1)])
  show ?case using ih z assms(1)
    by (auto simp: mathInt_snoc d dropWhile_append)
qed

lemma digits_roundtrip:
  assumes "2 \<le> R" "list_all (isRadixDigit R) v" "v \<noteq> []"
  shows "map asciiUpper (toDigits R (mathInt R v)) = stripLeadingZeros (map asciiUpper v)"
  using assms(2,3)
proof (induction v rule: rev_induct)
  case Nil
  then show ?case by simp
next
  case (snoc c u)
  then obtain d where d: "digitValue c = Some d" "d < R"
    by (auto simp: isRadixDigit_def split: option.splits)
  have up: "asciiUpper (digitChar d) = asciiUpper c" by (rule upper_digitChar[OF d(1)])
  have z: "(asciiUpper c = 0x30) = (d = 0)" by (rule digit_zero_iff[OF d(1)])
  have valid: "list_all (isRadixDigit R) u" using snoc.prems by simp
  have zero: "(mathInt R u = 0) = (dropWhile (\<lambda>c. c = 0x30) (map asciiUpper u) = [])"
    using mathInt_zero_iff[OF _ valid] assms(1) by simp
  show ?case
  proof (cases "mathInt R u = 0")
    case True
    then have "dropWhile (\<lambda>c. c = 0x30) (map asciiUpper u) = []" using zero by simp
    then have all0: "\<forall>x\<in>set (map asciiUpper u). x = 0x30"
      by (simp add: dropWhile_eq_Nil_conv)
    have "stripLeadingZeros (map asciiUpper (u @ [c])) = [asciiUpper c]"
      using all0 z by (auto simp: stripLeadingZeros_def dropWhile_append)
    moreover have "toDigits R (mathInt R (u @ [c])) = [digitChar d]"
      using True d assms(1) by (simp add: mathInt_snoc toDigits_small)
    ultimately show ?thesis using up by simp
  next
    case False
    then have ne: "dropWhile (\<lambda>c. c = 0x30) (map asciiUpper u) \<noteq> []" using zero by simp
    then have une: "u \<noteq> []" by auto
    have ih: "map asciiUpper (toDigits R (mathInt R u)) = stripLeadingZeros (map asciiUpper u)"
      using snoc.IH[OF valid une] .
    have "stripLeadingZeros (map asciiUpper (u @ [c])) = stripLeadingZeros (map asciiUpper u) @ [asciiUpper c]"
      using ne by (auto simp: stripLeadingZeros_def dropWhile_append split: list.splits)
    moreover have "toDigits R (mathInt R (u @ [c])) = toDigits R (mathInt R u) @ [digitChar d]"
      using False d assms(1) by (simp add: mathInt_snoc toDigits_step)
    ultimately show ?thesis using ih up by simp
  qed
qed

lemma digitValue_asciiUpper: "digitValue (asciiUpper c) = digitValue c"
proof (cases "0x61 \<le> c \<and> c \<le> 0x7A")
  case False
  then show ?thesis by (auto simp: asciiUpper_def)
next
  case True
  then have u: "97 \<le> unat c" "unat c \<le> 122" by (simp_all add: word_le_nat_alt)
  have v: "unat (asciiUpper c) = unat c - 32" using u by (simp add: asciiUpper_unat)
  show ?thesis using u v
    by (simp add: digitValue_def inRange_def word_le_nat_alt) arith
qed

lemma mathInt_asciiUpper: "mathInt R (map asciiUpper s) = mathInt R s"
  by (induction s rule: rev_induct) (simp add: mathInt_def, simp add: mathInt_snoc digitValue_asciiUpper split: option.splits)

lemma radixDigit_plain:
  assumes "isRadixDigit R c"
  shows "\<not> isWhiteSpace c" "c \<noteq> 0x2B" "c \<noteq> 0x2D" "isASCII c"
proof -
  obtain d where d: "digitValue c = Some d"
    using assms by (auto simp: isRadixDigit_def split: option.splits)
  have r: "48 \<le> unat c \<and> unat c \<le> 122" using digitValue_cases[OF d] by arith
  show "\<not> isWhiteSpace c"
  proof
    assume "isWhiteSpace c"
    then have "unat c \<in> {9, 10, 11, 12, 13, 32, 160, 5760, 8232, 8233, 8239, 8287, 12288, 65279}
                \<or> (8192 \<le> unat c \<and> unat c \<le> 8202)"
      by (auto simp: isWhiteSpace_def word_le_nat_alt)
    then show False using r by auto
  qed
  show "c \<noteq> 0x2B" using r by auto
  show "c \<noteq> 0x2D" using r by auto
  show "isASCII c" using r by (simp add: isASCII_def word_less_nat_alt)
qed

lemma inRange_unat: "inRange lo hi c = (unat lo \<le> unat c \<and> unat c \<le> unat hi)"
  by (simp add: inRange_def word_le_nat_alt)

lemma binary_digit: "inRange 0x30 0x31 c \<Longrightarrow> isRadixDigit 2 c"
  by (auto simp: isRadixDigit_def digitValue_def inRange_unat)

lemma octal_digit: "inRange 0x30 0x37 c \<Longrightarrow> isRadixDigit 8 c"
  by (auto simp: isRadixDigit_def digitValue_def inRange_unat)

lemma decimal_digit: "inRange 0x30 0x39 c \<Longrightarrow> isRadixDigit 10 c"
  by (auto simp: isRadixDigit_def digitValue_def inRange_unat)

lemma hexadecimal_digit:
  "inRange 0x30 0x39 c \<or> inRange 0x41 0x46 c \<or> inRange 0x61 0x66 c \<Longrightarrow> isRadixDigit 16 c"
  by (auto simp: isRadixDigit_def digitValue_def inRange_unat)

lemma legalInput_digits:
  assumes "legalInput sourceType s"
  shows "s \<noteq> []" "list_all (isRadixDigit (radixOf sourceType)) s"
    "radixOf sourceType \<in> {2, 8, 10, 16}" "sourceType \<in> set sourceTypes"
  using assms
  by (auto simp: legalInput_def radixOf_def sourceTypes_def testBinary_def testOctal_def
      testDecimal_def testHexadecimal_def list_all_iff
      intro: binary_digit octal_digit decimal_digit hexadecimal_digit split: if_splits)

lemma dropWhile_none: "list_all (\<lambda>c. \<not> P c) s \<Longrightarrow> dropWhile P s = s"
  by (cases s) simp_all

lemma trim_digits:
  assumes "list_all (isRadixDigit R) s"
  shows "trim s = s"
proof -
  have a: "list_all (\<lambda>c. \<not> isWhiteSpace c) s"
    using assms radixDigit_plain(1) by (auto simp: list_all_iff)
  then have b: "list_all (\<lambda>c. \<not> isWhiteSpace c) (rev s)" by (simp add: list_all_iff)
  show ?thesis unfolding trim_def by (simp add: dropWhile_none[OF a] dropWhile_none[OF b])
qed

lemma toUpperCase_digits:
  assumes "list_all (isRadixDigit R) s"
  shows "toUpperCase E s = map asciiUpper s"
proof -
  have "list_all isASCII s" using assms radixDigit_plain(4) by (auto simp: list_all_iff)
  then show ?thesis by (simp add: toUpperCase_def)
qed

lemma x_not_hex: "\<not> isRadixDigit 16 0x78" "\<not> isRadixDigit 16 0x58"
  by (simp_all add: isRadixDigit_def digitValue_def inRange_unat)

lemma parseInt_digits:
  assumes "s \<noteq> []" "list_all (isRadixDigit R) s" "R \<in> {2, 8, 10, 16}"
  shows "parseInt s R = toNumber False (mathInt R s)"
proof -
  obtain c t where s: "s = c # t" using assms(1) by (cases s) auto
  have c: "isRadixDigit R c" using assms(2) s by simp
  have ws: "dropWhile isWhiteSpace s = s" using s radixDigit_plain(1)[OF c] by simp
  have sign: "hd s \<noteq> 0x2B" "hd s \<noteq> 0x2D"
    using s radixDigit_plain(2,3)[OF c] by simp_all
  have prefix: "R = 16 \<Longrightarrow> take 2 s \<noteq> ascii ''0x'' \<and> take 2 s \<noteq> ascii ''0X''"
  proof -
    assume R: "R = 16"
    show ?thesis
    proof (cases t)
      case Nil
      then show ?thesis using s by (simp add: ascii_def)
    next
      case (Cons c' t')
      then have "isRadixDigit 16 c'" using assms(2) s R by simp
      then have "c' \<noteq> 0x78" "c' \<noteq> 0x58" using x_not_hex by auto
      then show ?thesis using s Cons by (simp add: ascii_def)
    qed
  qed
  have tw: "takeWhile (isRadixDigit R) s = s" using assms(2) by (simp add: list_all_iff)
  have ne: "s \<noteq> []" by (rule assms(1))
  consider "R = 2" | "R = 8" | "R = 10" | "R = 16" using assms(3) by auto
  then show ?thesis
  proof cases
    case 1
    then show ?thesis using ws sign tw ne by (simp add: parseInt_def Let_def takeWhile_eq_all_conv[THEN iffD2])
  next
    case 2
    then show ?thesis using ws sign tw ne by (simp add: parseInt_def Let_def takeWhile_eq_all_conv[THEN iffD2])
  next
    case 3
    then show ?thesis using ws sign tw ne by (simp add: parseInt_def Let_def takeWhile_eq_all_conv[THEN iffD2])
  next
    case 4
    then show ?thesis using ws sign tw ne prefix by (simp add: parseInt_def Let_def takeWhile_eq_all_conv[THEN iffD2])
  qed
qed

lemma roundToDouble_exact: "n \<le> 2 ^ 53 \<Longrightarrow> roundToDouble n = Some n"
proof (cases "n < 2 ^ 53")
  case True
  then show ?thesis by (simp add: roundToDouble_def)
next
  case False
  assume "n \<le> 2 ^ 53"
  then have "n = 2 ^ 53" using False by simp
  then show ?thesis by (simp add: roundToDouble_def Let_def bitLength.simps)
qed

lemma digitChar_ascii: "d < 36 \<Longrightarrow> isASCII (digitChar d)"
  by (simp add: isASCII_def word_less_nat_alt unat_digitChar)

lemma toDigits_ascii:
  assumes "2 \<le> R" "R \<le> 36"
  shows "list_all isASCII (toDigits R n)"
proof (induction n rule: less_induct)
  case (less n)
  show ?case
  proof (cases "n < R")
    case True
    then show ?thesis using assms by (simp add: toDigits_small digitChar_ascii)
  next
    case False
    have "n div R < n" using False assms by (simp add: div_less_dividend)
    then have ih: "list_all isASCII (toDigits R (n div R))" by (rule less.IH)
    have "n mod R < R" using assms by simp
    then have "n mod R < 36" using assms by linarith
    then show ?thesis using False assms ih
      by (subst toDigits.simps) (simp add: digitChar_ascii)
  qed
qed

lemma asciiUpper_below: "unat c < 97 \<Longrightarrow> asciiUpper c = c"
  by (simp add: asciiUpper_def word_le_nat_alt)

lemma inRange_upper_fixed:
  assumes "inRange lo hi c" "unat hi < 97"
  shows "asciiUpper c = c"
  using assms by (intro asciiUpper_below) (simp add: inRange_unat)

lemma inRange_upper_hex:
  assumes "inRange 0x61 0x66 c"
  shows "inRange 0x41 0x46 (asciiUpper c)"
proof -
  have u: "97 \<le> unat c" "unat c \<le> 102" using assms by (simp_all add: inRange_unat)
  then have "unat (asciiUpper c) = unat c - 32" by (simp add: asciiUpper_unat)
  then show ?thesis using u by (simp add: inRange_unat) arith
qed

lemma testBinary_upper: "testBinary s \<Longrightarrow> testBinary (map asciiUpper s)"
  by (auto simp: testBinary_def list_all_iff inRange_upper_fixed)

lemma testOctal_upper: "testOctal s \<Longrightarrow> testOctal (map asciiUpper s)"
  by (auto simp: testOctal_def list_all_iff inRange_upper_fixed)

lemma testDecimal_upper: "testDecimal s \<Longrightarrow> testDecimal (map asciiUpper s)"
  by (auto simp: testDecimal_def list_all_iff inRange_upper_fixed)

lemma testHexadecimal_upper: "testHexadecimal s \<Longrightarrow> testHexadecimal (map asciiUpper s)"
  by (auto simp: testHexadecimal_def list_all_iff inRange_upper_fixed inRange_upper_hex)

lemma legalInput_upper: "legalInput t s \<Longrightarrow> legalInput t (map asciiUpper s)"
  by (auto simp: legalInput_def testBinary_upper testOctal_upper testDecimal_upper
      testHexadecimal_upper split: if_splits)

lemma switch_legal:
  "legalInput t v \<Longrightarrow> switchSourceType t v = Inr (parseInt v (radixOf t))"
  by (auto simp: legalInput_def switchSourceType_def radixOf_def split: if_splits)

lemma toNumber_positive: "\<not> isNaN (toNumber False n)" "\<not> lessThanZero (toNumber False n)"
  by (simp_all add: toNumber_def isNaN_def lessThanZero_def split: option.splits)

lemma normalize_legal:
  assumes "legalInput t s"
  shows "toUpperCase E (trim s) = map asciiUpper s"
  using legalInput_digits(2)[OF assms] by (simp add: trim_digits toUpperCase_digits)

lemma handleInput_accepts:
  assumes "legalInput t s"
  shows "handleInput E this t s = updateResults E this (toNumber False (mathInt (radixOf t) s)) t"
proof -
  let ?v = "map asciiUpper s"
  have v: "toUpperCase E (trim s) = ?v" by (rule normalize_legal[OF assms])
  have lv: "legalInput t ?v" by (rule legalInput_upper[OF assms])
  have ne: "?v \<noteq> []" using legalInput_digits(1)[OF assms] by simp
  have "parseInt ?v (radixOf t) = toNumber False (mathInt (radixOf t) ?v)"
    using parseInt_digits[OF ne legalInput_digits(2)[OF lv] legalInput_digits(3)[OF lv]] .
  then have p: "parseInt ?v (radixOf t) = toNumber False (mathInt (radixOf t) s)"
    by (simp add: mathInt_asciiUpper)
  show ?thesis
    unfolding handleInput_def v Let_def
    using ne by (simp add: switch_legal[OF lv] p toNumber_positive)
qed

lemma toDigits_chars:
  assumes "2 \<le> R"
  shows "\<forall>c\<in>set (toDigits R n). \<exists>d<R. c = digitChar d"
proof (induction n rule: less_induct)
  case (less n)
  show ?case
  proof (cases "n < R")
    case True
    then show ?thesis by (auto simp: toDigits_small)
  next
    case False
    have "n div R < n" using False assms by (simp add: div_less_dividend)
    then have ih: "\<forall>c\<in>set (toDigits R (n div R)). \<exists>d<R. c = digitChar d" by (rule less.IH)
    have m: "n mod R < R" using assms by simp
    have "toDigits R n = toDigits R (n div R) @ [digitChar (n mod R)]"
      using False assms by (subst toDigits.simps) simp
    then show ?thesis using ih m by auto
  qed
qed

lemma digitChar_decimal_upper: "d < 10 \<Longrightarrow> asciiUpper (digitChar d) = digitChar d"
  by (rule asciiUpper_below) (simp add: unat_digitChar)

lemma toDigits_upper_fixed:
  assumes "2 \<le> R" "R \<le> 10"
  shows "map asciiUpper (toDigits R n) = toDigits R n"
proof -
  have "\<forall>c\<in>set (toDigits R n). asciiUpper c = c"
    using toDigits_chars[OF assms(1), of n] assms(2) digitChar_decimal_upper by fastforce
  then show ?thesis by (simp add: map_idI)
qed

lemma numberToString_exact:
  assumes "n \<le> 2 ^ 53"
  shows "numberToString E (Finite (int n)) R = toDigits R n"
proof -
  have "int n \<le> int (2 ^ 53)" using assms by (simp only: of_nat_le_iff)
  then have "\<bar>int n\<bar> \<le> 2 ^ 53" by simp
  then show ?thesis by (simp add: numberToString_def)
qed

lemma updateResults_exact:
  assumes "n \<le> 2 ^ 53"
  shows "updateResults E this (Finite (int n)) t =
         this \<lparr> binaryResult := \<lparr> textContent = binary (renderAll n), errorClass = False \<rparr>,
                octalResult := \<lparr> textContent = octal (renderAll n), errorClass = False \<rparr>,
                decimalResult := \<lparr> textContent = decimal (renderAll n), errorClass = False \<rparr>,
                hexadecimalResult := \<lparr> textContent = hexadecimal (renderAll n), errorClass = False \<rparr>,
                currentValues := Some (renderAll n) \<rparr>"
proof -
  have "toUpperCase E (toDigits 16 n) = map asciiUpper (toDigits 16 n)"
    using toDigits_ascii[of 16 n] by (simp add: toUpperCase_def)
  then show ?thesis
    by (simp add: updateResults_def Let_def numberToString_exact[OF assms] renderAll_def)
qed

lemma handleInput_exact:
  assumes "legalInput t s" "mathInt (radixOf t) s \<le> 2 ^ 53"
  shows "handleInput E this t s =
         this \<lparr> binaryResult := \<lparr> textContent = binary (renderAll (mathInt (radixOf t) s)), errorClass = False \<rparr>,
                octalResult := \<lparr> textContent = octal (renderAll (mathInt (radixOf t) s)), errorClass = False \<rparr>,
                decimalResult := \<lparr> textContent = decimal (renderAll (mathInt (radixOf t) s)), errorClass = False \<rparr>,
                hexadecimalResult := \<lparr> textContent = hexadecimal (renderAll (mathInt (radixOf t) s)), errorClass = False \<rparr>,
                currentValues := Some (renderAll (mathInt (radixOf t) s)) \<rparr>"
  by (simp add: handleInput_accepts[OF assms(1)] toNumber_def roundToDouble_exact[OF assms(2)]
      updateResults_exact[OF assms(2)])

lemma digitValue_digitChar: "d < 36 \<Longrightarrow> digitValue (digitChar d) = Some d"
proof -
  assume d: "d < 36"
  have u: "unat (digitChar d) = (if d < 10 then 48 + d else 87 + d)" by (rule unat_digitChar[OF d])
  show ?thesis
  proof (cases "d < 10")
    case True
    then show ?thesis using u by (simp add: digitValue_def inRange_unat)
  next
    case False
    then show ?thesis using u d by (simp add: digitValue_def inRange_unat)
  qed
qed

lemma mathInt_toDigits:
  assumes "2 \<le> R" "R \<le> 36"
  shows "mathInt R (toDigits R n) = n"
proof (induction n rule: less_induct)
  case (less n)
  show ?case
  proof (cases "n < R")
    case True
    then have "n < 36" using assms by simp
    then show ?thesis using True
      by (simp add: toDigits_small mathInt_def digitValue_digitChar)
  next
    case False
    have "n div R < n" using False assms by (simp add: div_less_dividend)
    then have ih: "mathInt R (toDigits R (n div R)) = n div R" by (rule less.IH)
    have "n mod R < R" using assms by simp
    then have m: "n mod R < 36" using assms by linarith
    have "toDigits R n = toDigits R (n div R) @ [digitChar (n mod R)]"
      using False assms by (subst toDigits.simps) simp
    then show ?thesis by (simp add: mathInt_snoc digitValue_digitChar[OF m] ih)
  qed
qed

lemma renderAll_denotes:
  "mathInt 2 (binary (renderAll n)) = n \<and> mathInt 8 (octal (renderAll n)) = n
   \<and> mathInt 10 (decimal (renderAll n)) = n \<and> mathInt 16 (hexadecimal (renderAll n)) = n"
  by (simp add: renderAll_def mathInt_toDigits mathInt_asciiUpper)

section \<open>Properties of the converter\<close>

text \<open>The definitions a closed statement is evaluated with.\<close>

lemmas string_eval = ascii_def isWhiteSpace_def trim_def isASCII_def asciiUpper_def toUpperCase_def
  inRange_def testBinary_def testOctal_def testDecimal_def testHexadecimal_def
lemmas number_eval = roundToDouble_def toNumber_def digitValue_def isRadixDigit_def mathInt_def
  parseInt_def isNaN_def lessThanZero_def digitChar_def numberToString_def Let_def
  bitLength.simps toDigits.simps
lemmas converter_eval = updateResults_def showConversionError_def clearResults_def
  switchSourceType_def handleInput_def legalInput_def radixOf_def renderAll_def
  showsConversion_def showsPlaceholder_def showsError_def resultOf_def

lemma sourceTypes_cases:
  assumes "t \<in> set sourceTypes"
  obtains "t = ''binary''" | "t = ''octal''" | "t = ''decimal''" | "t = ''hexadecimal''"
  using assms unfolding sourceTypes_def by auto

lemma legalInput_alphabet:
  assumes "t \<in> set sourceTypes"
  shows "legalInput t v = (v \<noteq> [] \<and> list_all (inAlphabet t) v)"
  using assms
proof (cases rule: sourceTypes_cases)
  case 1
  then show ?thesis by (simp add: legalInput_def inAlphabet_def[abs_def] testBinary_def)
next
  case 2
  then show ?thesis by (simp add: legalInput_def inAlphabet_def[abs_def] testOctal_def)
next
  case 3
  then show ?thesis by (simp add: legalInput_def inAlphabet_def[abs_def] testDecimal_def)
next
  case 4
  then show ?thesis by (simp add: legalInput_def inAlphabet_def[abs_def] testHexadecimal_def)
qed

lemma switch_illegal:
  assumes "t \<in> set sourceTypes" "\<not> legalInput t v"
  shows "\<exists>e. switchSourceType t v = Inl e"
  using assms(1)
proof (cases rule: sourceTypes_cases)
  case 1
  then show ?thesis using assms(2) by (simp add: legalInput_def switchSourceType_def)
next
  case 2
  then show ?thesis using assms(2) by (simp add: legalInput_def switchSourceType_def)
next
  case 3
  then show ?thesis using assms(2) by (simp add: legalInput_def switchSourceType_def)
next
  case 4
  then show ?thesis using assms(2) by (simp add: legalInput_def switchSourceType_def)
qed

lemma handleInput_rejects:
  assumes "t \<in> set sourceTypes" "toUpperCase E (trim input) \<noteq> []"
    "\<not> legalInput t (toUpperCase E (trim input))"
  shows "handleInput E this t input = showConversionError this"
proof -
  obtain e where "switchSourceType t (toUpperCase E (trim input)) = Inl e"
    using switch_illegal[OF assms(1,3)] by auto
  then show ?thesis using assms(2) by (simp add: handleInput_def Let_def)
qed

lemma handleInput_empty:
  assumes "trim input = []"
  shows "handleInput E this t input = clearResults this"
  using assms by (simp add: handleInput_def toUpperCase_def)

lemma double_pred: "(1::nat) \<le> k \<Longrightarrow> (k - 1) * 2 + 1 = 2 * k - 1"
  by arith

lemma mathInt_ones: "mathInt 2 (replicate n 0x31) = 2 ^ n - 1"
proof (induction n)
  case 0
  then show ?case by (simp add: mathInt_def)
next
  case (Suc n)
  have d: "digitValue 0x31 = Some 1" by (simp add: digitValue_def inRange_def)
  have "mathInt 2 (replicate (Suc n) 0x31) = mathInt 2 (replicate n 0x31 @ [0x31])"
    by (simp add: replicate_append_same)
  also have "\<dots> = (2 ^ n - 1) * 2 + 1" by (simp add: mathInt_snoc d Suc)
  also have "\<dots> = 2 ^ Suc n - 1" using double_pred[of "2 ^ n"] by simp
  finally show ?case .
qed

lemma ones_legal: "0 < n \<Longrightarrow> legalInput ''binary'' (replicate n 0x31)"
  by (simp add: legalInput_def testBinary_def list_all_iff inRange_def)

lemma bitLength_ones: "bitLength (2 ^ n - 1) = n"
proof (induction n)
  case 0
  then show ?case by (simp add: bitLength.simps)
next
  case (Suc n)
  have p: "(1::nat) \<le> 2 ^ n" by simp
  then have "(2::nat) ^ Suc n - 1 = (2 ^ n - 1) * 2 + 1" using double_pred[of "2 ^ n"] by simp
  then have "((2::nat) ^ Suc n - 1) div 2 = 2 ^ n - 1" "(2::nat) ^ Suc n - 1 \<noteq> 0" by simp_all
  then show ?case using Suc by (subst bitLength.simps) simp
qed

lemma overflow: "toNumber False (2 ^ 1024 - 1) = PosInfinity"
  unfolding toNumber_def roundToDouble_def Let_def bitLength_ones by simp

lemma updateResults_infinity:
  "updateResults E this PosInfinity t =
     this \<lparr> binaryResult := \<lparr> textContent = ascii ''Infinity'', errorClass = False \<rparr>,
            octalResult := \<lparr> textContent = ascii ''Infinity'', errorClass = False \<rparr>,
            decimalResult := \<lparr> textContent = ascii ''Infinity'', errorClass = False \<rparr>,
            hexadecimalResult := \<lparr> textContent = ascii ''INFINITY'', errorClass = False \<rparr>,
            currentValues := Some \<lparr> binary = ascii ''Infinity'', octal = ascii ''Infinity'',
              decimal = ascii ''Infinity'', hexadecimal = ascii ''INFINITY'' \<rparr> \<rparr>"
  by (simp add: updateResults_def numberToString_def string_eval)

lemma handleInput_overflow:
  "handleInput E this ''binary'' (replicate 1024 0x31) = updateResults E this PosInfinity ''binary''"
proof -
  have l: "legalInput ''binary'' (replicate 1024 0x31)" by (rule ones_legal) simp
  have m: "mathInt (radixOf ''binary'') (replicate 1024 0x31) = 2 ^ 1024 - 1"
    by (simp add: radixOf_def mathInt_ones)
  show ?thesis by (simp only: handleInput_accepts[OF l] m overflow)
qed

subsection \<open>Claim C1: one integer, rendered in all four radixes\<close>

text \<open>
  Claim C1, as far as the code keeps it. For every source type and every input that
  passes the type's test and whose value is at most \<open>2^53\<close> (every integer up to there is
  a double; \<^verbatim>\<open>Number.MAX_SAFE_INTEGER\<close> is \<open>2^53 - 1\<close>), handleInput shows in the four
  result fields the renderings of that value in radix 2, 8, 10 and 16, the last in upper
  case, and keeps them as the copy buffer; each of the four strings, read in its radix,
  is that value. In particular binary \<^verbatim>\<open>1010\<close> gives decimal
  \<^verbatim>\<open>10\<close>, octal \<^verbatim>\<open>12\<close> and hexadecimal \<^verbatim>\<open>A\<close>, and decimal \<^verbatim>\<open>493\<close> gives octal \<^verbatim>\<open>755\<close>.
\<close>

theorem handleInput_renders_all_radixes:
  assumes "legalInput sourceType s"
    and "mathInt (radixOf sourceType) s \<le> 2 ^ 53"
  shows "showsConversion (renderAll (mathInt (radixOf sourceType) s))
           (handleInput E this sourceType s)
         \<and> currentValues (handleInput E this sourceType s)
             = Some (renderAll (mathInt (radixOf sourceType) s))
         \<and> mathInt 2 (binary (renderAll (mathInt (radixOf sourceType) s)))
             = mathInt (radixOf sourceType) s
         \<and> mathInt 8 (octal (renderAll (mathInt (radixOf sourceType) s)))
             = mathInt (radixOf sourceType) s
         \<and> mathInt 10 (decimal (renderAll (mathInt (radixOf sourceType) s)))
             = mathInt (radixOf sourceType) s
         \<and> mathInt 16 (hexadecimal (renderAll (mathInt (radixOf sourceType) s)))
             = mathInt (radixOf sourceType) s
         \<and> currentValues (handleInput E this ''binary'' (ascii ''1010''))
             = Some \<lparr> binary = ascii ''1010'', octal = ascii ''12'', decimal = ascii ''10'',
                      hexadecimal = ascii ''A'' \<rparr>
         \<and> textContent (octalResult (handleInput E this ''decimal'' (ascii ''493'')))
             = ascii ''755''"
proof -
  have a: "showsConversion (renderAll (mathInt (radixOf sourceType) s))
           (handleInput E this sourceType s)"
    by (simp add: handleInput_exact[OF assms] showsConversion_def)
  have b: "currentValues (handleInput E this sourceType s)
             = Some (renderAll (mathInt (radixOf sourceType) s))"
    by (simp add: handleInput_exact[OF assms])
  have c: "currentValues (handleInput E this ''binary'' (ascii ''1010''))
             = Some \<lparr> binary = ascii ''1010'', octal = ascii ''12'', decimal = ascii ''10'',
                      hexadecimal = ascii ''A'' \<rparr>"
    by (simp add: string_eval number_eval converter_eval)
  have d: "textContent (octalResult (handleInput E this ''decimal'' (ascii ''493'')))
             = ascii ''755''"
    by (simp add: string_eval number_eval converter_eval)
  show ?thesis using a b c d renderAll_denotes[of "mathInt (radixOf sourceType) s"] by simp
qed

text \<open>The theorem at octal \<^verbatim>\<open>755\<close>.\<close>

theorem handleInput_renders_all_radixes_witness:
  "legalInput ''octal'' (ascii ''755'')
   \<and> mathInt (radixOf ''octal'') (ascii ''755'') \<le> 2 ^ 53
   \<and> showsConversion \<lparr> binary = ascii ''111101101'', octal = ascii ''755'',
         decimal = ascii ''493'', hexadecimal = ascii ''1ED'' \<rparr>
         (handleInput exactEngine emptyPage ''octal'' (ascii ''755''))"
proof -
  have l: "legalInput ''octal'' (ascii ''755'')" by (simp add: string_eval converter_eval)
  have m: "mathInt (radixOf ''octal'') (ascii ''755'') = 493"
    by (simp add: string_eval number_eval converter_eval)
  have b: "mathInt (radixOf ''octal'') (ascii ''755'') \<le> 2 ^ 53" by (simp add: m)
  have r: "renderAll 493 = \<lparr> binary = ascii ''111101101'', octal = ascii ''755'',
         decimal = ascii ''493'', hexadecimal = ascii ''1ED'' \<rparr>"
    by (simp add: string_eval number_eval converter_eval)
  show ?thesis
    using handleInput_renders_all_radixes[OF l b, of exactEngine emptyPage] l b
    by (simp add: m r)
qed

text \<open>
  Claim C1 as the specification states it, for every legal input, fails. Decimal
  \<^verbatim>\<open>9007199254740993\<close> is \<open>2^53 + 1\<close>: parseInt rounds it to the double \<open>2^53\<close>, and the
  decimal field shows \<^verbatim>\<open>9007199254740992\<close>, not the integer that was typed. A binary
  numeral of 1024 ones is beyond the largest double: parseInt returns Infinity, which is
  neither NaN nor negative, and the fields show \<^verbatim>\<open>Infinity\<close>, the hexadecimal one
  \<^verbatim>\<open>INFINITY\<close>.
\<close>

theorem renders_all_radixes_counterexample:
  "legalInput ''decimal'' (ascii ''9007199254740993'')
   \<and> textContent (decimalResult (handleInput exactEngine emptyPage ''decimal''
         (ascii ''9007199254740993''))) = ascii ''9007199254740992''
   \<and> \<not> showsConversion (renderAll (mathInt (radixOf ''decimal'') (ascii ''9007199254740993'')))
         (handleInput exactEngine emptyPage ''decimal'' (ascii ''9007199254740993''))
   \<and> legalInput ''binary'' (replicate 1024 0x31)
   \<and> showsConversion \<lparr> binary = ascii ''Infinity'', octal = ascii ''Infinity'',
         decimal = ascii ''Infinity'', hexadecimal = ascii ''INFINITY'' \<rparr>
         (handleInput exactEngine emptyPage ''binary'' (replicate 1024 0x31))"
proof -
  have a: "legalInput ''decimal'' (ascii ''9007199254740993'')"
    by (simp add: string_eval converter_eval)
  have b: "textContent (decimalResult (handleInput exactEngine emptyPage ''decimal''
         (ascii ''9007199254740993''))) = ascii ''9007199254740992''"
    by (simp add: string_eval number_eval converter_eval)
  have c: "decimal (renderAll (mathInt (radixOf ''decimal'') (ascii ''9007199254740993'')))
             = ascii ''9007199254740993''"
    by (simp add: string_eval number_eval converter_eval)
  have d: "ascii ''9007199254740992'' \<noteq> ascii ''9007199254740993''" by (simp add: ascii_def)
  have e: "\<not> showsConversion (renderAll (mathInt (radixOf ''decimal'') (ascii ''9007199254740993'')))
         (handleInput exactEngine emptyPage ''decimal'' (ascii ''9007199254740993''))"
  proof
    assume "showsConversion (renderAll (mathInt (radixOf ''decimal'') (ascii ''9007199254740993'')))
         (handleInput exactEngine emptyPage ''decimal'' (ascii ''9007199254740993''))"
    then have "textContent (decimalResult (handleInput exactEngine emptyPage ''decimal''
         (ascii ''9007199254740993''))) = decimal (renderAll (mathInt (radixOf ''decimal'') (ascii ''9007199254740993'')))"
      by (simp add: showsConversion_def)
    then show False using b c d by simp
  qed
  have f: "legalInput ''binary'' (replicate 1024 0x31)" by (rule ones_legal) simp
  have g: "showsConversion \<lparr> binary = ascii ''Infinity'', octal = ascii ''Infinity'',
         decimal = ascii ''Infinity'', hexadecimal = ascii ''INFINITY'' \<rparr>
         (handleInput exactEngine emptyPage ''binary'' (replicate 1024 0x31))"
    by (simp add: handleInput_overflow updateResults_infinity showsConversion_def)
  show ?thesis using a b e f g by blast
qed

lemma resultOf_exact:
  assumes "legalInput t s" "mathInt (radixOf t) s \<le> 2 ^ 53"
  shows "textContent (resultOf t (handleInput E this t s))
         = map asciiUpper (toDigits (radixOf t) (mathInt (radixOf t) s))"
  using legalInput_digits(4)[OF assms(1)]
proof (cases rule: sourceTypes_cases)
  case 1
  then show ?thesis using assms
    by (simp add: handleInput_exact resultOf_def renderAll_def radixOf_def toDigits_upper_fixed)
next
  case 2
  then show ?thesis using assms
    by (simp add: handleInput_exact resultOf_def renderAll_def radixOf_def toDigits_upper_fixed)
next
  case 3
  then show ?thesis using assms
    by (simp add: handleInput_exact resultOf_def renderAll_def radixOf_def toDigits_upper_fixed)
next
  case 4
  then show ?thesis using assms
    by (simp add: handleInput_exact resultOf_def renderAll_def radixOf_def)
qed

subsection \<open>Claim C2: the round trip\<close>

text \<open>
  Claim C2, as far as the code keeps it. For every source type and every input \<open>s\<close> that
  passes the type's test and whose value is at most \<open>2^53\<close>, the result field of the
  source type shows \<open>s\<close> again, in upper case and without its leading zeros.
\<close>

theorem round_trip:
  assumes "legalInput sourceType s"
    and "mathInt (radixOf sourceType) s \<le> 2 ^ 53"
  shows "textContent (resultOf sourceType (handleInput E this sourceType s))
         = stripLeadingZeros (map asciiUpper s)"
proof -
  have r: "2 \<le> radixOf sourceType" using legalInput_digits(3)[OF assms(1)] by auto
  show ?thesis
    by (simp only: resultOf_exact[OF assms]
        digits_roundtrip[OF r legalInput_digits(2)[OF assms(1)] legalInput_digits(1)[OF assms(1)]])
qed

text \<open>The theorem at hexadecimal \<^verbatim>\<open>00ff\<close>, which comes back as \<^verbatim>\<open>FF\<close>.\<close>

theorem round_trip_witness:
  "legalInput ''hexadecimal'' (ascii ''00ff'')
   \<and> mathInt (radixOf ''hexadecimal'') (ascii ''00ff'') \<le> 2 ^ 53
   \<and> textContent (resultOf ''hexadecimal''
         (handleInput exactEngine emptyPage ''hexadecimal'' (ascii ''00ff''))) = ascii ''FF''"
proof -
  have l: "legalInput ''hexadecimal'' (ascii ''00ff'')" by (simp add: string_eval converter_eval)
  have m: "mathInt (radixOf ''hexadecimal'') (ascii ''00ff'') = 255"
    by (simp add: string_eval number_eval converter_eval)
  have b: "mathInt (radixOf ''hexadecimal'') (ascii ''00ff'') \<le> 2 ^ 53" by (simp add: m)
  have n: "stripLeadingZeros (map asciiUpper (ascii ''00ff'')) = ascii ''FF''"
    by (simp add: stripLeadingZeros_def string_eval)
  show ?thesis using round_trip[OF l b, of exactEngine emptyPage] l b by (simp add: n)
qed

text \<open>
  Claim C2 as the specification states it, for every valid input, fails: hexadecimal
  \<^verbatim>\<open>20000000000001\<close> is \<open>2^53 + 1\<close> and comes back as \<^verbatim>\<open>20000000000000\<close>.
\<close>

theorem round_trip_counterexample:
  "legalInput ''hexadecimal'' (ascii ''20000000000001'')
   \<and> textContent (resultOf ''hexadecimal''
         (handleInput exactEngine emptyPage ''hexadecimal'' (ascii ''20000000000001'')))
       = ascii ''20000000000000''
   \<and> stripLeadingZeros (map asciiUpper (ascii ''20000000000001'')) = ascii ''20000000000001''
   \<and> textContent (resultOf ''hexadecimal''
         (handleInput exactEngine emptyPage ''hexadecimal'' (ascii ''20000000000001'')))
       \<noteq> stripLeadingZeros (map asciiUpper (ascii ''20000000000001''))"
proof -
  have a: "legalInput ''hexadecimal'' (ascii ''20000000000001'')"
    by (simp add: string_eval converter_eval)
  have b: "textContent (resultOf ''hexadecimal''
         (handleInput exactEngine emptyPage ''hexadecimal'' (ascii ''20000000000001'')))
       = ascii ''20000000000000''"
    by (simp add: string_eval number_eval converter_eval)
  have c: "stripLeadingZeros (map asciiUpper (ascii ''20000000000001'')) = ascii ''20000000000001''"
    by (simp add: stripLeadingZeros_def string_eval)
  have d: "ascii ''20000000000000'' \<noteq> ascii ''20000000000001''" by (simp add: ascii_def)
  show ?thesis using a b c d by simp
qed

subsection \<open>Claim C5: an empty input clears the results\<close>

text \<open>
  Claim C5. Whatever the source type, an input that is empty after trimming makes
  handleInput do what clearResults does: the four result fields show the placeholder
  \<^verbatim>\<open>-\<close> without the class \<^verbatim>\<open>error\<close>, and the copy buffer is \<^verbatim>\<open>null\<close>.
\<close>

theorem empty_input_clears:
  assumes "trim input = []"
  shows "handleInput E this sourceType input = clearResults this
         \<and> showsPlaceholder (handleInput E this sourceType input)
         \<and> currentValues (handleInput E this sourceType input) = None"
  using assms
  by (simp add: handleInput_empty clearResults_def showsPlaceholder_def)

text \<open>The theorem at an input of three spaces.\<close>

theorem empty_input_clears_witness:
  "trim (ascii ''   '') = []
   \<and> showsPlaceholder (handleInput exactEngine emptyPage ''octal'' (ascii ''   ''))
   \<and> currentValues (handleInput exactEngine emptyPage ''octal'' (ascii ''   '')) = None"
proof -
  have t: "trim (ascii ''   '') = []" by (simp add: string_eval)
  show ?thesis using empty_input_clears[OF t, of exactEngine emptyPage "''octal''"] t by blast
qed

subsection \<open>Claim C6: an illegal character shows the error marker\<close>

text \<open>
  Claim C6, as far as the code keeps it. For each of the four source types, when the
  trimmed, upper-cased input has a character outside the type's alphabet, handleInput
  does what showConversionError does: the four result fields show \<^verbatim>\<open>Error\<close> with the
  class \<^verbatim>\<open>error\<close>, none keeps a conversion, and the copy buffer is \<^verbatim>\<open>null\<close>.
\<close>

theorem illegal_input_shows_error:
  assumes "sourceType \<in> set sourceTypes"
    and "\<exists>c\<in>set (toUpperCase E (trim input)). \<not> inAlphabet sourceType c"
  shows "handleInput E this sourceType input = showConversionError this
         \<and> showsError (handleInput E this sourceType input)
         \<and> currentValues (handleInput E this sourceType input) = None"
proof -
  have ne: "toUpperCase E (trim input) \<noteq> []" using assms(2) by auto
  have il: "\<not> legalInput sourceType (toUpperCase E (trim input))"
    using assms(2) by (auto simp: legalInput_alphabet[OF assms(1)] list_all_iff)
  show ?thesis
    by (simp add: handleInput_rejects[OF assms(1) ne il] showConversionError_def showsError_def)
qed

text \<open>The theorem at binary \<^verbatim>\<open>102\<close>.\<close>

theorem illegal_input_shows_error_witness:
  "''binary'' \<in> set sourceTypes
   \<and> (\<exists>c\<in>set (toUpperCase exactEngine (trim (ascii ''102''))). \<not> inAlphabet ''binary'' c)
   \<and> showsError (handleInput exactEngine emptyPage ''binary'' (ascii ''102''))
   \<and> currentValues (handleInput exactEngine emptyPage ''binary'' (ascii ''102'')) = None"
proof -
  have t: "''binary'' \<in> set sourceTypes" by (simp add: sourceTypes_def)
  have c: "\<exists>c\<in>set (toUpperCase exactEngine (trim (ascii ''102''))). \<not> inAlphabet ''binary'' c"
    by (simp add: string_eval inAlphabet_def)
  show ?thesis using illegal_input_shows_error[OF t c, of emptyPage] t c by blast
qed

text \<open>
  Claim C6 as the specification states it counts the empty string among the inputs
  answered with the error marker. handleInput returns before the \<^verbatim>\<open>try\<close> block for it
  (lines 110-113): the fields show the placeholder, not the error marker.
\<close>

theorem empty_string_is_not_an_error:
  "\<not> showsError (handleInput exactEngine emptyPage ''binary'' [])
   \<and> showsPlaceholder (handleInput exactEngine emptyPage ''binary'' [])"
  by (simp add: handleInput_empty trim_def clearResults_def showsPlaceholder_def showsError_def
      ascii_def)

subsection \<open>Claim C9: hexadecimal input in either case\<close>

text \<open>
  Claim C9. For every string \<open>s\<close> of hexadecimal digits, in upper or lower case,
  handleInput with the type hexadecimal gives the same page for \<open>s\<close> and for \<open>s\<close> in upper
  case; and when \<open>s\<close> is not empty it is the page updateResults builds from the value of
  \<open>s\<close>: the input is accepted and the copy buffer is set. In particular \<^verbatim>\<open>ff\<close> gives decimal \<^verbatim>\<open>255\<close> and
  binary \<^verbatim>\<open>11111111\<close>.
\<close>

theorem hexadecimal_case_insensitive:
  assumes "list_all (inAlphabet ''hexadecimal'') s"
  shows "handleInput E this ''hexadecimal'' s
           = handleInput E this ''hexadecimal'' (toUpperCase E s)
         \<and> (s \<noteq> [] \<longrightarrow>
               handleInput E this ''hexadecimal'' s
                 = updateResults E this (toNumber False (mathInt 16 s)) ''hexadecimal''
               \<and> currentValues (handleInput E this ''hexadecimal'' s) \<noteq> None)
         \<and> currentValues (handleInput E this ''hexadecimal'' (ascii ''ff''))
           = Some \<lparr> binary = ascii ''11111111'', octal = ascii ''377'',
                    decimal = ascii ''255'', hexadecimal = ascii ''FF'' \<rparr>"
proof -
  have d: "currentValues (handleInput E this ''hexadecimal'' (ascii ''ff''))
           = Some \<lparr> binary = ascii ''11111111'', octal = ascii ''377'',
                    decimal = ascii ''255'', hexadecimal = ascii ''FF'' \<rparr>"
    by (simp add: string_eval number_eval converter_eval)
  show ?thesis
  proof (cases "s = []")
    case True
    then show ?thesis using d by (simp add: toUpperCase_def)
  next
    case False
    have h: "''hexadecimal'' \<in> set sourceTypes" by (simp add: sourceTypes_def)
    have l: "legalInput ''hexadecimal'' s"
      using assms False by (simp add: legalInput_alphabet[OF h])
    have u: "toUpperCase E s = map asciiUpper s"
      by (rule toUpperCase_digits[OF legalInput_digits(2)[OF l]])
    have lu: "legalInput ''hexadecimal'' (map asciiUpper s)" by (rule legalInput_upper[OF l])
    have r: "radixOf ''hexadecimal'' = 16" by (simp add: radixOf_def)
    have a: "handleInput E this ''hexadecimal'' s
             = updateResults E this (toNumber False (mathInt 16 s)) ''hexadecimal''"
      using handleInput_accepts[OF l, of E this] by (simp add: r)
    have b: "handleInput E this ''hexadecimal'' (toUpperCase E s)
             = updateResults E this (toNumber False (mathInt 16 s)) ''hexadecimal''"
      using handleInput_accepts[OF lu, of E this] by (simp add: r u mathInt_asciiUpper)
    have c: "currentValues (handleInput E this ''hexadecimal'' s) \<noteq> None"
      by (simp add: a updateResults_def Let_def)
    show ?thesis using a b c d by simp
  qed
qed

text \<open>The theorem at \<^verbatim>\<open>fF\<close>.\<close>

theorem hexadecimal_case_insensitive_witness:
  "list_all (inAlphabet ''hexadecimal'') (ascii ''fF'')
   \<and> handleInput exactEngine emptyPage ''hexadecimal'' (ascii ''fF'')
       = handleInput exactEngine emptyPage ''hexadecimal'' (ascii ''FF'')
   \<and> currentValues (handleInput exactEngine emptyPage ''hexadecimal'' (ascii ''fF'')) \<noteq> None"
proof -
  have t: "list_all (inAlphabet ''hexadecimal'') (ascii ''fF'')"
    by (simp add: inAlphabet_def string_eval)
  have u: "toUpperCase exactEngine (ascii ''fF'') = ascii ''FF''" by (simp add: string_eval)
  have n: "ascii ''fF'' \<noteq> []" by (simp add: ascii_def)
  show ?thesis
    using hexadecimal_case_insensitive[OF t, of exactEngine emptyPage, unfolded u] t n by blast
qed

lemma inSync_clearResults: "inSync (clearResults this)"
  by (simp add: inSync_def clearResults_def showsPlaceholder_def)

lemma inSync_showConversionError: "inSync (showConversionError this)"
  by (simp add: inSync_def showConversionError_def showsError_def)

lemma inSync_updateResults: "inSync (updateResults E this x t)"
  by (simp add: inSync_def updateResults_def Let_def showsConversion_def)

lemma inSync_handleInput: "inSync (handleInput E this t input)"
  by (simp add: handleInput_def Let_def inSync_clearResults inSync_showConversionError
      inSync_updateResults split: sum.splits)

lemma inSync_dispatch: "inSync (dispatch E this ev)"
  by (cases ev) (simp_all add: dispatch_def inSync_handleInput clearAll_def inSync_clearResults)

lemma inSync_run: "inSync (run E page evs)"
proof (induction evs rule: rev_induct)
  case Nil
  then show ?case by (simp add: run_def newConverter_def clearAll_def inSync_clearResults)
next
  case (snoc ev evs)
  have "run E page (evs @ [ev]) = dispatch E (run E page evs) ev" by (simp add: run_def)
  then show ?case by (simp add: inSync_dispatch)
qed

subsection \<open>Claim C10: the copy buffer follows the result fields\<close>

text \<open>
  Claim C10. After the constructor and any sequence of input and clear events, the copy
  buffer is an object exactly when the result fields show a conversion, and then they show
  that object; when it is \<^verbatim>\<open>null\<close> the fields show the placeholder or the error marker.
  showConversionError and clearResults set the buffer to \<^verbatim>\<open>null\<close>, and copyResults then
  writes nothing and reports that there are no results to copy.
\<close>

theorem copy_buffer_in_sync:
  "inSync (run E page evs)
   \<and> currentValues (showConversionError this) = None
   \<and> currentValues (clearResults this) = None
   \<and> copyResults w (showConversionError this) = Shown ''No results to copy''
   \<and> copyResults w (clearResults this) = Shown ''No results to copy''
   \<and> (currentValues (run E page evs) = None
        \<longrightarrow> copyResults w (run E page evs) = Shown ''No results to copy'')"
  by (simp add: inSync_run showConversionError_def clearResults_def copyResults_def)

text \<open>The theorem after a conversion followed by a failed one.\<close>

theorem copy_buffer_in_sync_witness:
  "currentValues (run exactEngine emptyPage
       [InputEvent ''decimal'' (ascii ''493''), InputEvent ''decimal'' (ascii ''49e'')]) = None
   \<and> showsError (run exactEngine emptyPage
       [InputEvent ''decimal'' (ascii ''493''), InputEvent ''decimal'' (ascii ''49e'')])
   \<and> copyResults True (run exactEngine emptyPage
       [InputEvent ''decimal'' (ascii ''493''), InputEvent ''decimal'' (ascii ''49e'')])
       = Shown ''No results to copy''"
proof -
  let ?evs = "[InputEvent ''decimal'' (ascii ''493''), InputEvent ''decimal'' (ascii ''49e'')]"
  have n: "currentValues (run exactEngine emptyPage ?evs) = None"
    by (simp add: run_def dispatch_def newConverter_def clearAll_def string_eval number_eval
        converter_eval)
  have e: "showsError (run exactEngine emptyPage ?evs)"
    using copy_buffer_in_sync[of exactEngine emptyPage ?evs] n
    by (simp add: inSync_def showsPlaceholder_def run_def dispatch_def newConverter_def
        clearAll_def string_eval number_eval converter_eval)
  show ?thesis using copy_buffer_in_sync[of exactEngine emptyPage ?evs _ True] n e by simp
qed

section \<open>Properties of the service worker\<close>

lemma foldl_cacheStorageDelete:
  "foldl cacheStorageDelete st names = filter (\<lambda>entry. fst entry \<notin> set names) st"
proof (induction names arbitrary: st)
  case Nil
  then show ?case by simp
next
  case (Cons n names)
  show ?case by (simp add: Cons.IH) (simp add: cacheStorageDelete_def conj_commute)
qed

lemma activate_caches:
  "caches (fst (activate w))
     = filter (\<lambda>entry. fst entry = STATIC_CACHE_NAME \<or> fst entry = DYNAMIC_CACHE_NAME) (caches w)"
  by (auto simp: activate_def Let_def foldl_cacheStorageDelete cacheStorageKeys_def
      intro: filter_cong)

subsection \<open>Claim C7: activation purges the old caches\<close>

text \<open>
  Claim C7. The activate listener deletes every cache whose name is neither the current
  static name nor the current dynamic name and leaves the caches of these two names as
  they are, so every cache name that remains is a current one and none of another
  version is left. \<^verbatim>\<open>clients.claim\<close> is the last thing the listener does, after every
  deletion, and the promise handed to \<^verbatim>\<open>waitUntil\<close> is fulfilled.
\<close>

theorem activate_purges_old_caches:
  "caches (fst (activate w))
     = filter (\<lambda>entry. fst entry = STATIC_CACHE_NAME \<or> fst entry = DYNAMIC_CACHE_NAME) (caches w)
   \<and> set (cacheStorageKeys (caches (fst (activate w)))) \<subseteq> {STATIC_CACHE_NAME, DYNAMIC_CACHE_NAME}
   \<and> effects (fst (activate w))
     = effects w
       @ map CacheDeleted
           (filter (\<lambda>cacheName. cacheName \<noteq> STATIC_CACHE_NAME \<and> cacheName \<noteq> DYNAMIC_CACHE_NAME)
              (cacheStorageKeys (caches w)))
       @ [ClientsClaim]
   \<and> snd (activate w) = Fulfilled ()"
proof -
  have a: "set (cacheStorageKeys (caches (fst (activate w)))) \<subseteq> {STATIC_CACHE_NAME, DYNAMIC_CACHE_NAME}"
    by (auto simp: activate_caches cacheStorageKeys_def)
  show ?thesis using a by (simp add: activate_caches) (simp add: activate_def Let_def)
qed

text \<open>
  For instance, of a static cache left by version 0.9.0 and the two caches of this
  version, the first is deleted and the clients are claimed after that.
\<close>

lemma activate_example:
  "activate \<lparr> caches = [(''number-converter-v0.9.0-static'', c0), (STATIC_CACHE_NAME, c1),
                          (DYNAMIC_CACHE_NAME, c2)], effects = [] \<rparr>
     = (\<lparr> caches = [(STATIC_CACHE_NAME, c1), (DYNAMIC_CACHE_NAME, c2)],
          effects = [CacheDeleted ''number-converter-v0.9.0-static'', ClientsClaim] \<rparr>,
        Fulfilled ())"
proof -
  have n: "''number-converter-v0.9.0-static'' \<noteq> STATIC_CACHE_NAME"
    "''number-converter-v0.9.0-static'' \<noteq> DYNAMIC_CACHE_NAME"
    "STATIC_CACHE_NAME \<noteq> DYNAMIC_CACHE_NAME"
    by (simp_all add: STATIC_CACHE_NAME_def DYNAMIC_CACHE_NAME_def CACHE_NAME_def)
  show ?thesis
    using n by (simp add: activate_def Let_def cacheStorageKeys_def cacheStorageDelete_def)
qed

lemma cacheOf_open: "cacheOf (cacheStorageOpen st name) name = cacheOf st name"
proof (cases "name \<in> set (map fst st)")
  case True
  then show ?thesis by (simp add: cacheStorageOpen_def)
next
  case False
  then have "map_of st name = None" by (simp add: map_of_eq_None_iff)
  then show ?thesis using False by (simp add: cacheStorageOpen_def cacheOf_def map_add_def)
qed

lemma icon_fails: "\<exists>path\<in>set STATIC_FILES. \<not> fetchedOk iconMissing (resolveURL iconMissing path)"
  by (simp add: STATIC_FILES_def fetchedOk_def iconMissing_def resolveURL_def okResponse_def)

subsection \<open>Claim C4: a failed precache\<close>

text \<open>
  Claim C4, as far as the code keeps it. If the fetch of one of the static files fails,
  nothing is added to the static cache (addAll is all or nothing), \<^verbatim>\<open>skipWaiting\<close> is not
  called and the error is written to the console. The \<^verbatim>\<open>catch\<close> that writes it ends the
  chain, so the promise handed to \<^verbatim>\<open>waitUntil\<close> is fulfilled and the install phase
  completes.
\<close>

theorem failed_precache_is_swallowed:
  assumes "\<exists>path\<in>set STATIC_FILES. \<not> fetchedOk env (resolveURL env path)"
  shows "snd (install env w) = Fulfilled ()
         \<and> installPhase (snd (install env w)) = Installed
         \<and> cacheOf (caches (fst (install env w))) STATIC_CACHE_NAME
             = cacheOf (caches w) STATIC_CACHE_NAME
         \<and> effects (fst (install env w))
             = effects w @ [ConsoleError ''Error during service worker installation:''
                              (TypeError ''Failed to fetch'')]"
proof -
  have "\<not> list_all (fetchedOk env) (map (resolveURL env) STATIC_FILES)"
    using assms by (auto simp: list_all_iff)
  then have r: "cacheAddAll env (cacheStorageOpen (caches w) STATIC_CACHE_NAME) STATIC_CACHE_NAME
                  (map (resolveURL env) STATIC_FILES) = Rejected (TypeError ''Failed to fetch'')"
    by (simp add: cacheAddAll_def)
  show ?thesis by (simp add: install_def Let_def r installPhase_def cacheOf_open)
qed

text \<open>The theorem on a server that lacks the larger icon.\<close>

theorem failed_precache_is_swallowed_witness:
  "(\<exists>path\<in>set STATIC_FILES. \<not> fetchedOk iconMissing (resolveURL iconMissing path))
   \<and> installPhase (snd (install iconMissing freshWorker)) = Installed
   \<and> cacheOf (caches (fst (install iconMissing freshWorker))) STATIC_CACHE_NAME = []"
proof -
  have e: "cacheOf (caches freshWorker) STATIC_CACHE_NAME = []"
    by (simp add: freshWorker_def cacheOf_def)
  show ?thesis
    using failed_precache_is_swallowed[OF icon_fails, of freshWorker] icon_fails e by metis
qed

text \<open>
  Claim C4 as the specification states it has the install promise rejected and the worker
  not installed. On a server that answers 404 for the larger icon the promise is
  fulfilled and the worker is installed.
\<close>

theorem failed_precache_installs:
  "\<not> fetchedOk iconMissing (resolveURL iconMissing ''/icons/icon-512x512.png'')
   \<and> snd (install iconMissing freshWorker) = Fulfilled ()
   \<and> installPhase (snd (install iconMissing freshWorker)) = Installed"
proof -
  have a: "\<not> fetchedOk iconMissing (resolveURL iconMissing ''/icons/icon-512x512.png'')"
    by (simp add: fetchedOk_def iconMissing_def resolveURL_def)
  have "\<not> list_all (fetchedOk iconMissing) (map (resolveURL iconMissing) STATIC_FILES)"
    using a by (simp add: STATIC_FILES_def)
  then have b: "snd (install iconMissing freshWorker) = Fulfilled ()"
    by (simp add: install_def Let_def cacheAddAll_def)
  show ?thesis using a b by (simp add: installPhase_def)
qed

lemma cachePut_single:
  "cachePut [(name, c)] name u r = [(name, filter (\<lambda>e. fst e \<noteq> u) c @ [(u, r)])]"
  by (simp add: cachePut_def)

lemma filter_absent: "u \<notin> fst ` set c \<Longrightarrow> filter (\<lambda>e. fst e \<noteq> u) c = c"
  by (induction c) auto

lemma foldl_put_online:
  assumes "distinct urls" "set urls \<inter> fst ` set c = {}"
  shows "foldl (\<lambda>s u. case network online u of None \<Rightarrow> s | Some r \<Rightarrow> cachePut s name u r)
           [(name, c)] urls
         = [(name, c @ map (\<lambda>u. (u, okResponse u)) urls)]"
  using assms
proof (induction urls arbitrary: c)
  case Nil
  then show ?case by simp
next
  case (Cons u urls)
  have a: "u \<notin> fst ` set c" using Cons.prems(2) by auto
  have n: "network online u = Some (okResponse u)" by (simp add: online_def)
  have d: "distinct urls" using Cons.prems(1) by simp
  have e: "set urls \<inter> fst ` set (c @ [(u, okResponse u)]) = {}"
    using Cons.prems by auto
  show ?case
    using Cons.IH[OF d e] by (simp add: n cachePut_single filter_absent[OF a])
qed

lemma static_files_distinct: "distinct STATIC_FILES"
  by (simp add: STATIC_FILES_def)

lemma resolved_distinct: "distinct (map (resolveURL env) STATIC_FILES)"
  by (simp add: distinct_map static_files_distinct inj_on_def resolveURL_def)

lemma online_all_ok: "list_all (fetchedOk online) urls"
  by (simp add: list_all_iff fetchedOk_def online_def okResponse_def)

lemma install_online:
  "caches (fst (install online freshWorker))
     = [(STATIC_CACHE_NAME,
         map (\<lambda>u. (u, okResponse u)) (map (resolveURL online) STATIC_FILES))]"
proof -
  have o: "cacheStorageOpen (caches freshWorker) STATIC_CACHE_NAME = [(STATIC_CACHE_NAME, [])]"
    by (simp add: cacheStorageOpen_def freshWorker_def)
  have f: "foldl (\<lambda>s u. case network online u of None \<Rightarrow> s
                         | Some r \<Rightarrow> cachePut s STATIC_CACHE_NAME u r)
             [(STATIC_CACHE_NAME, [])] (map (resolveURL online) STATIC_FILES)
           = [(STATIC_CACHE_NAME, [] @ map (\<lambda>u. (u, okResponse u)) (map (resolveURL online) STATIC_FILES))]"
    by (rule foldl_put_online[OF resolved_distinct]) simp
  show ?thesis
    by (simp add: install_def Let_def o cacheAddAll_def online_all_ok f del: map_map)
qed

lemma match_single: "cacheStorageMatch [(name, c)] u = map_of c u"
  by (simp add: cacheStorageMatch_def)

lemma map_of_graph:
  "map_of (map (\<lambda>u. (u, f u)) urls) u = (if u \<in> set urls then Some (f u) else None)"
  by (induction urls) auto

lemma same_origin: "origin online = origin offline" "origin iconMissing = origin offline"
  by (simp_all add: online_def offline_def iconMissing_def)

lemma match_installed_online:
  "cacheStorageMatch (caches (fst (install online freshWorker))) (resolveURL offline path)
     = (if path \<in> set STATIC_FILES then Some (okResponse (resolveURL offline path)) else None)"
proof -
  have m: "(resolveURL offline path \<in> set (map (resolveURL online) STATIC_FILES))
             = (path \<in> set STATIC_FILES)"
    by (auto simp: resolveURL_def same_origin)
  have "cacheStorageMatch (caches (fst (install online freshWorker))) (resolveURL offline path)
          = map_of (map (\<lambda>u. (u, okResponse u)) (map (resolveURL online) STATIC_FILES))
              (resolveURL offline path)"
    by (simp only: install_online match_single)
  also have "\<dots> = (if resolveURL offline path \<in> set (map (resolveURL online) STATIC_FILES)
                      then Some (okResponse (resolveURL offline path)) else None)"
    by (rule map_of_graph)
  finally show ?thesis by (simp only: m)
qed

lemma install_rejected:
  assumes "\<not> list_all (fetchedOk env) (map (resolveURL env) STATIC_FILES)"
  shows "caches (fst (install env w)) = cacheStorageOpen (caches w) STATIC_CACHE_NAME"
  using assms by (simp add: install_def Let_def cacheAddAll_def)

lemma icon_rejected:
  "\<not> list_all (fetchedOk iconMissing) (map (resolveURL iconMissing) STATIC_FILES)"
  using icon_fails by (auto simp: list_all_iff)

lemma caches_icon_missing:
  "caches (fst (activate (fst (install iconMissing freshWorker)))) = [(STATIC_CACHE_NAME, [])]"
  by (simp add: activate_caches install_rejected[OF icon_rejected] cacheStorageOpen_def
      freshWorker_def)

subsection \<open>Claim C8: the answers to a failed fetch\<close>

text \<open>
  Claim C8, as far as the code keeps it. For a GET request of the worker's origin that no
  cache answers and whose fetch fails: a request for a document is answered with the
  cached \<^verbatim>\<open>/index.html\<close> when a cache holds that page, and any other request with a new
  response of status 408 and Content-Type text/plain. The worker's state is unchanged.
\<close>

theorem offline_fallback:
  assumes "requestMethod req = ''GET''"
    and "take (length (origin env)) (url req) = origin env"
    and "cacheStorageMatch (caches w) (url req) = None"
    and "network env (url req) = None"
  shows "(destination req = ''document''
            \<and> cacheStorageMatch (caches w) (resolveURL env ''/index.html'') = Some page
          \<longrightarrow> handleFetch env w req = (w, RespondWith (Some page)))
         \<and> (destination req \<noteq> ''document''
          \<longrightarrow> handleFetch env w req = (w, RespondWith (Some offlineResponse)))
         \<and> status offlineResponse = 408
         \<and> headers offlineResponse = [(''Content-Type'', ''text/plain'')]"
  using assms by (simp add: handleFetch_def offlineResponse_def)

text \<open>
  The theorem on a worker installed while the network was up, for a document and for an
  image requested while it is down.
\<close>

theorem offline_fallback_witness:
  "handleFetch offline (fst (install online freshWorker))
       (getRequest (resolveURL offline ''/about'') ''document'')
     = (fst (install online freshWorker),
        RespondWith (Some (okResponse (resolveURL offline ''/index.html''))))
   \<and> handleFetch offline (fst (install online freshWorker))
       (getRequest (resolveURL offline ''/logo.png'') ''image'')
     = (fst (install online freshWorker), RespondWith (Some offlineResponse))"
proof -
  let ?w = "fst (install online freshWorker)"
  let ?d = "getRequest (resolveURL offline ''/about'') ''document''"
  let ?i = "getRequest (resolveURL offline ''/logo.png'') ''image''"
  have d: "requestMethod ?d = ''GET''" "take (length (origin offline)) (url ?d) = origin offline"
    "network offline (url ?d) = None" "destination ?d = ''document''"
    by (simp_all add: getRequest_def offline_def resolveURL_def)
  have i: "requestMethod ?i = ''GET''" "take (length (origin offline)) (url ?i) = origin offline"
    "network offline (url ?i) = None" "destination ?i \<noteq> ''document''"
    by (simp_all add: getRequest_def offline_def resolveURL_def)
  have md: "cacheStorageMatch (caches ?w) (url ?d) = None"
    by (simp add: getRequest_def match_installed_online STATIC_FILES_def)
  have mi: "cacheStorageMatch (caches ?w) (url ?i) = None"
    by (simp add: getRequest_def match_installed_online STATIC_FILES_def)
  have p: "cacheStorageMatch (caches ?w) (resolveURL offline ''/index.html'')
             = Some (okResponse (resolveURL offline ''/index.html''))"
    by (simp add: match_installed_online STATIC_FILES_def)
  show ?thesis
    using offline_fallback[OF d(1) d(2) md d(3), of "okResponse (resolveURL offline ''/index.html'')"]
      offline_fallback[OF i(1) i(2) mi i(3)] d(4) i(4) p
    by blast
qed

text \<open>
  Claim C8 as the specification states it promises the main page for every failed
  document request. A worker whose precache failed (the icon is missing) is installed and
  activated all the same, with an empty static cache; a document request it handles
  offline is answered with what \<^verbatim>\<open>caches.match\<close> resolves to, \<^verbatim>\<open>undefined\<close>, and
  \<^verbatim>\<open>respondWith\<close> fails the request.
\<close>

theorem offline_document_without_cached_page:
  "requestMethod (getRequest (resolveURL offline ''/index.html'') ''document'') = ''GET''
   \<and> cacheStorageMatch (caches (fst (activate (fst (install iconMissing freshWorker)))))
         (resolveURL offline ''/index.html'') = None
   \<and> network offline (resolveURL offline ''/index.html'') = None
   \<and> snd (handleFetch offline (fst (activate (fst (install iconMissing freshWorker))))
         (getRequest (resolveURL offline ''/index.html'') ''document''))
       = RespondWith None"
  by (simp add: caches_icon_missing match_single handleFetch_def getRequest_def offline_def
      resolveURL_def)

lemma limitCacheSize_caches:
  "caches (limitCacheSize w name maxSize) = cacheStorageOpen (caches w) name"
  by (simp add: limitCacheSize_def Let_def)

lemma open_single: "cacheStorageOpen [(name, c)] name = [(name, c)]"
  by (simp add: cacheStorageOpen_def)

lemma open_empty: "cacheStorageOpen [] name = [(name, [])]"
  by (simp add: cacheStorageOpen_def)

lemma fetch_step:
  assumes "caches w = [(DYNAMIC_CACHE_NAME, c)] \<or> (caches w = [] \<and> c = [])"
    and "u \<notin> fst ` set c"
    and "take (length (origin online)) u = origin online"
  shows "caches (fst (handleFetch online w (getRequest u dest)))
         = [(DYNAMIC_CACHE_NAME, c @ [(u, okResponse u)])]"
proof -
  have m: "cacheStorageMatch (caches w) u = None"
    using assms(1,2) by (auto simp: cacheStorageMatch_def map_of_eq_None_iff)
  have o: "cacheStorageOpen (caches w) DYNAMIC_CACHE_NAME = [(DYNAMIC_CACHE_NAME, c)]"
    using assms(1) by (auto simp: open_single open_empty)
  have n: "network online u = Some (okResponse u)" by (simp add: online_def)
  show ?thesis
    using assms(3)
    by (simp add: handleFetch_def getRequest_def m n okResponse_def Let_def o
        limitCacheSize_caches cachePut_single filter_absent[OF assms(2)] open_single)
qed

lemma handleFetches_snoc:
  "handleFetches env w (reqs @ [req]) = fst (handleFetch env (handleFetches env w reqs) req)"
  by (simp add: handleFetches_def)

lemma scriptRequests_Suc:
  "scriptRequests (Suc n)
     = scriptRequests n
       @ [getRequest (resolveURL online (''/lib/'' @ replicate n (CHR ''x'') @ ''.js'')) ''script'']"
  by (simp add: scriptRequests_def)

lemma script_url_fresh:
  "resolveURL online (''/lib/'' @ replicate n (CHR ''x'') @ ''.js'')
     \<notin> set (map url (scriptRequests n))"
proof
  assume "resolveURL online (''/lib/'' @ replicate n (CHR ''x'') @ ''.js'')
            \<in> set (map url (scriptRequests n))"
  then obtain i where i: "i < n"
    "resolveURL online (''/lib/'' @ replicate n (CHR ''x'') @ ''.js'')
       = resolveURL online (''/lib/'' @ replicate i (CHR ''x'') @ ''.js'')"
    by (auto simp: scriptRequests_def getRequest_def)
  then have "replicate n (CHR ''x'') = replicate i (CHR ''x'')"
    by (simp add: resolveURL_def)
  then have "length (replicate n (CHR ''x'')) = length (replicate i (CHR ''x''))" by simp
  then show False using i(1) by simp
qed

lemma caches_after_requests:
  "caches (handleFetches online freshWorker (scriptRequests n))
     = (if n = 0 then []
        else [(DYNAMIC_CACHE_NAME, map (\<lambda>u. (u, okResponse u)) (map url (scriptRequests n)))])"
proof (induction n)
  case 0
  then show ?case by (simp add: scriptRequests_def handleFetches_def freshWorker_def)
next
  case (Suc n)
  let ?u = "resolveURL online (''/lib/'' @ replicate n (CHR ''x'') @ ''.js'')"
  let ?c = "map (\<lambda>u. (u, okResponse u)) (map url (scriptRequests n))"
  let ?w = "handleFetches online freshWorker (scriptRequests n)"
  have a: "caches ?w = [(DYNAMIC_CACHE_NAME, ?c)] \<or> (caches ?w = [] \<and> ?c = [])"
    using Suc.IH by (cases "n = 0") (simp_all add: scriptRequests_def)
  have b: "?u \<notin> fst ` set ?c" using script_url_fresh[of n] by (simp add: image_image)
  have c: "take (length (origin online)) ?u = origin online" by (simp add: resolveURL_def)
  have "caches (handleFetches online freshWorker (scriptRequests (Suc n)))
          = [(DYNAMIC_CACHE_NAME, ?c @ [(?u, okResponse ?u)])]"
    by (simp only: scriptRequests_Suc handleFetches_snoc fetch_step[OF a b c])
  also have "?c @ [(?u, okResponse ?u)]
          = map (\<lambda>u. (u, okResponse u)) (map url (scriptRequests (Suc n)))"
    by (simp add: scriptRequests_Suc getRequest_def)
  finally show ?case by simp
qed

lemma fetch_step_effects:
  assumes "caches w = [(DYNAMIC_CACHE_NAME, c)]"
    and "u \<notin> fst ` set c"
    and "take (length (origin online)) u = origin online"
    and "MAX_DYNAMIC_CACHE_SIZE \<le> length c"
  shows "effects (fst (handleFetch online w (getRequest u dest)))
         = effects w @ [ConsoleError ''Error limiting cache size:''
                          (ReferenceError ''cache is not defined'')]"
proof -
  have m: "cacheStorageMatch (caches w) u = None"
    using assms(1,2) by (auto simp: cacheStorageMatch_def map_of_eq_None_iff)
  have o: "cacheStorageOpen (caches w) DYNAMIC_CACHE_NAME = [(DYNAMIC_CACHE_NAME, c)]"
    using assms(1) by (auto simp: open_single)
  have n: "network online u = Some (okResponse u)" by (simp add: online_def)
  show ?thesis
    using assms(3,4)
    by (simp add: handleFetch_def getRequest_def m n okResponse_def Let_def o
        limitCacheSize_def cachePut_single filter_absent[OF assms(2)] open_single
        cacheKeys_def cacheOf_def)
qed

lemma last_insertion_is_logged:
  "effects (handleFetches online freshWorker (scriptRequests 51))
     = effects (handleFetches online freshWorker (scriptRequests 50))
       @ [ConsoleError ''Error limiting cache size:'' (ReferenceError ''cache is not defined'')]"
proof -
  let ?u = "resolveURL online (''/lib/'' @ replicate 50 (CHR ''x'') @ ''.js'')"
  let ?c = "map (\<lambda>u. (u, okResponse u)) (map url (scriptRequests 50))"
  let ?w = "handleFetches online freshWorker (scriptRequests 50)"
  have a: "caches ?w = [(DYNAMIC_CACHE_NAME, ?c)]" by (simp add: caches_after_requests)
  have b: "?u \<notin> fst ` set ?c" using script_url_fresh[of 50] by (simp add: image_image)
  have c: "take (length (origin online)) ?u = origin online" by (simp add: resolveURL_def)
  have d: "MAX_DYNAMIC_CACHE_SIZE \<le> length ?c"
    by (simp add: MAX_DYNAMIC_CACHE_SIZE_def scriptRequests_def)
  have s: "scriptRequests 51 = scriptRequests 50 @ [getRequest ?u ''script'']"
    using scriptRequests_Suc[of 50] by simp
  show ?thesis by (simp only: s handleFetches_snoc fetch_step_effects[OF a b c d])
qed

subsection \<open>Claim C3: the bound of the dynamic cache\<close>

text \<open>
  Claim C3 fails on the code. limitCacheSize leaves every entry of the cache in place,
  whatever the bound: its deletion is never reached (the ReferenceError above). After the
  worker has answered \<open>n + 1\<close> different requests from the network, its dynamic cache
  holds all \<open>n + 1\<close> of them, so 51 after 51 requests, while MAX_DYNAMIC_CACHE_SIZE is 50;
  what the 51st insertion adds to the worker's effects is the ReferenceError on the console.
\<close>

theorem dynamic_cache_grows_past_its_bound:
  "cacheKeys (caches (handleFetches online freshWorker (scriptRequests (Suc n)))) DYNAMIC_CACHE_NAME
     = map url (scriptRequests (Suc n))
   \<and> length (cacheKeys (caches (handleFetches online freshWorker (scriptRequests 51)))
       DYNAMIC_CACHE_NAME) = 51
   \<and> MAX_DYNAMIC_CACHE_SIZE = 50
   \<and> effects (handleFetches online freshWorker (scriptRequests 51))
     = effects (handleFetches online freshWorker (scriptRequests 50))
       @ [ConsoleError ''Error limiting cache size:'' (ReferenceError ''cache is not defined'')]
   \<and> caches (limitCacheSize w cacheName maxSize) = cacheStorageOpen (caches w) cacheName"
proof -
  have a: "cacheKeys (caches (handleFetches online freshWorker (scriptRequests (Suc n))))
             DYNAMIC_CACHE_NAME = map url (scriptRequests (Suc n))" for n
    by (simp add: caches_after_requests cacheKeys_def cacheOf_def comp_def del: upt_Suc)
  have b: "length (cacheKeys (caches (handleFetches online freshWorker (scriptRequests 51)))
       DYNAMIC_CACHE_NAME) = 51"
    using a[of 50] by (simp add: scriptRequests_def)
  show ?thesis
    using a[of n] b last_insertion_is_logged
    by (simp add: MAX_DYNAMIC_CACHE_SIZE_def limitCacheSize_caches)
qed

end
